theory Spec2Isabelle
  imports Main "HOL-Library.Word"
begin

section \<open>The OpenGL shader program manager\<close>

text \<open>
  A shallow embedding of \<^verbatim>\<open>ShaderProgramManager::Impl\<close> and of the helpers of
  \<^verbatim>\<open>src/video_core/renderer_opengl/gl_shader_manager.cpp\<close>. The manager object, the
  OpenGL context it talks to, the render state it publishes to and the cache file are one
  record that every operation takes and returns. The source generators, the key builders,
  the hash function and the OpenGL driver are parameters.
\<close>

subsection \<open>Machine types and byte encodings\<close>

type_synonym u8 = "8 word"
type_synonym u32 = "32 word"
type_synonym u64 = "64 word"
type_synonym GLuint = "32 word"
type_synonym GLenum = "32 word"
type_synonym bytes = "u8 list"

text \<open>The object representation of an unsigned integer on the (little-endian) host.\<close>

fun le_bytes :: "nat \<Rightarrow> nat \<Rightarrow> bytes" where
  "le_bytes 0 v = []"
| "le_bytes (Suc n) v = of_nat (v mod 256) # le_bytes n (v div 256)"

fun le_val :: "bytes \<Rightarrow> nat" where
  "le_val [] = 0"
| "le_val (b # bs) = unat b + 256 * le_val bs"

definition u32_bytes :: "u32 \<Rightarrow> bytes" where
  "u32_bytes w = le_bytes 4 (unat w)"

definition u64_bytes :: "u64 \<Rightarrow> bytes" where
  "u64_bytes w = le_bytes 8 (unat w)"

definition bytes_u32 :: "bytes \<Rightarrow> u32" where
  "bytes_u32 bs = of_nat (le_val bs)"

definition bytes_u64 :: "bytes \<Rightarrow> u64" where
  "bytes_u64 bs = of_nat (le_val bs)"

text \<open>The bytes of a \<^verbatim>\<open>std::string\<close>, as \<^verbatim>\<open>data()\<close> and \<^verbatim>\<open>size()\<close> give them.\<close>

definition string_bytes :: "string \<Rightarrow> bytes" where
  "string_bytes cs = map of_char cs"

subsection \<open>Errors\<close>

text \<open>
  \<^verbatim>\<open>ASSERT_MSG\<close> aborts the process. Dereferencing a null or an uninitialised
  stage pointer is undefined behaviour in the source; the model stops there with a fault of
  its own kind, so that it is never mistaken for a checked assertion.
\<close>

datatype error = AssertFailed | NullDereference

subsection \<open>External collaborators\<close>

datatype shader_type = GL_VERTEX_SHADER | GL_GEOMETRY_SHADER | GL_FRAGMENT_SHADER

datatype UniformBindings = Common | VS

datatype unit_id =
    PicaTexture nat | TextureCube
  | TextureBufferLUT_LF | TextureBufferLUT_RG | TextureBufferLUT_RGBA
  | ShadowBuffer | ShadowTexturePX | ShadowTextureNX | ShadowTexturePY
  | ShadowTextureNY | ShadowTexturePZ | ShadowTextureNZ

datatype stage_bit = GL_VERTEX_SHADER_BIT | GL_GEOMETRY_SHADER_BIT | GL_FRAGMENT_SHADER_BIT

text \<open>
  Every call that leaves the manager for a source generator or for the driver is recorded,
  newest first. The record is what the properties about "no second generator or compile
  call" are stated on.
\<close>

datatype call =
    Generate shader_type bytes
  | ShaderCreate string shader_type
  | ProgramCreate bool "GLuint list"
  | ProgramCreateBinary GLenum bytes
  | GetProgramBinary GLuint
  | PipelineCreate
  | glUniformBlockBinding GLuint GLuint UniformBindings
  | BindShaderProgram GLuint
  | glUniform1i int unit_id
  | glUseProgramStages GLuint "stage_bit list" GLuint

text \<open>
  The key builders, the hash and the generators: \<^verbatim>\<open>PicaVSConfig\<close>,
  \<^verbatim>\<open>PicaFixedGSConfig\<close> and \<^verbatim>\<open>PicaFSConfig::BuildFromRegs\<close> give the
  bytes of the key object (what \<^verbatim>\<open>ComputeHash64(&key, sizeof(key))\<close> reads);
  \<open>'r\<close> is \<^verbatim>\<open>Pica::Regs\<close> and \<open>'s\<close> is \<^verbatim>\<open>Pica::Shader::ShaderSetup\<close>.
\<close>

record ('r, 's) pica =
  ComputeHash64 :: "bytes \<Rightarrow> u64"
  PicaVSConfig :: "'r \<Rightarrow> 's \<Rightarrow> bytes"
  PicaFixedGSConfig :: "'r \<Rightarrow> bytes"
  PicaFSConfig_BuildFromRegs :: "'r \<Rightarrow> bytes"
  GenerateVertexShader :: "'s \<Rightarrow> bytes \<Rightarrow> bool \<Rightarrow> string"
  GenerateFixedGeometryShader :: "bytes \<Rightarrow> bool \<Rightarrow> string"
  GenerateFragmentShader :: "bytes \<Rightarrow> bool \<Rightarrow> string"
  GenerateTrivialVertexShader :: "bool \<Rightarrow> string"
  use_shader_cache :: bool
  sizeof_UniformData :: nat
  sizeof_VSUniformData :: nat

text \<open>
  The driver behind the GPU object wrappers of \<^verbatim>\<open>gl_resource_manager.h\<close>. Each
  answer may depend on the calls made so far.
\<close>

record driver =
  OGLShader_Create :: "call list \<Rightarrow> string \<Rightarrow> shader_type \<Rightarrow> GLuint"
  OGLProgram_Create :: "call list \<Rightarrow> bool \<Rightarrow> GLuint list \<Rightarrow> GLuint"
  OGLProgram_CreateBinary :: "call list \<Rightarrow> GLenum \<Rightarrow> bytes \<Rightarrow> GLuint"
  OGLProgram_GetProgramBinary :: "call list \<Rightarrow> GLuint \<Rightarrow> GLenum \<times> bytes"
  OGLPipeline_Create :: "call list \<Rightarrow> GLuint"
  glGetUniformBlockIndex :: "call list \<Rightarrow> GLuint \<Rightarrow> string \<Rightarrow> GLuint"
  glGetActiveUniformBlock_DATA_SIZE :: "call list \<Rightarrow> GLuint \<Rightarrow> GLuint \<Rightarrow> int"
  glGetUniformLocation :: "call list \<Rightarrow> GLuint \<Rightarrow> string \<Rightarrow> int"

definition GL_INVALID_INDEX :: GLuint where
  "GL_INVALID_INDEX = 0xFFFFFFFF"

text \<open>The OpenGL context: the calls made and the program bound by
  \<^verbatim>\<open>OpenGLState::BindShaderProgram\<close>, which returns the one bound before.\<close>

record gl =
  calls :: "call list"
  bound_program :: GLuint

definition record_call :: "call \<Rightarrow> gl \<Rightarrow> gl" where
  "record_call c g = g\<lparr>calls := c # calls g\<rparr>"

subsection \<open>Binding helpers\<close>

definition SetShaderUniformBlockBinding ::
  "driver \<Rightarrow> GLuint \<Rightarrow> string \<Rightarrow> UniformBindings \<Rightarrow> nat \<Rightarrow> gl \<Rightarrow> error + gl" where
  "SetShaderUniformBlockBinding D shader name binding expected_size g =
     (let ub_index = glGetUniformBlockIndex D (calls g) shader name in
      if ub_index = GL_INVALID_INDEX then Inr g
      else
        let ub_size = glGetActiveUniformBlock_DATA_SIZE D (calls g) shader ub_index in
        if ub_size \<noteq> int expected_size then Inl AssertFailed
        else Inr (record_call (glUniformBlockBinding shader ub_index binding) g))"

definition SetShaderUniformBlockBindings ::
  "('r, 's) pica \<Rightarrow> driver \<Rightarrow> GLuint \<Rightarrow> gl \<Rightarrow> error + gl" where
  "SetShaderUniformBlockBindings P D shader g =
     (case SetShaderUniformBlockBinding D shader ''shader_data'' Common (sizeof_UniformData P) g of
        Inl e \<Rightarrow> Inl e
      | Inr g1 \<Rightarrow>
          SetShaderUniformBlockBinding D shader ''vs_config'' VS (sizeof_VSUniformData P) g1)"

definition SetShaderSamplerBinding :: "driver \<Rightarrow> GLuint \<Rightarrow> string \<Rightarrow> unit_id \<Rightarrow> gl \<Rightarrow> gl" where
  "SetShaderSamplerBinding D shader name binding g =
     (let uniform_tex = glGetUniformLocation D (calls g) shader name in
      if uniform_tex \<noteq> - 1 then record_call (glUniform1i uniform_tex binding) g else g)"

definition SetShaderImageBinding :: "driver \<Rightarrow> GLuint \<Rightarrow> string \<Rightarrow> unit_id \<Rightarrow> gl \<Rightarrow> gl" where
  "SetShaderImageBinding D shader name binding g =
     (let uniform_tex = glGetUniformLocation D (calls g) shader name in
      if uniform_tex \<noteq> - 1 then record_call (glUniform1i uniform_tex binding) g else g)"

text \<open>Modelled from the spec: \<^verbatim>\<open>OpenGLState::BindShaderProgram\<close>, part of the render
  state tracker and not of this source file. As its use in \<^verbatim>\<open>SetShaderSamplerBindings\<close>
  shows, it binds the program it is given and returns the one that was bound.\<close>

definition OpenGLState_BindShaderProgram :: "GLuint \<Rightarrow> gl \<Rightarrow> GLuint \<times> gl" where
  "OpenGLState_BindShaderProgram shader g =
     (bound_program g, record_call (BindShaderProgram shader) (g\<lparr>bound_program := shader\<rparr>))"

definition SetShaderSamplerBindings :: "driver \<Rightarrow> GLuint \<Rightarrow> gl \<Rightarrow> gl" where
  "SetShaderSamplerBindings D shader g =
     (let (old_program, g0) = OpenGLState_BindShaderProgram shader g;
          g1 = SetShaderSamplerBinding D shader ''tex0'' (PicaTexture 0) g0;
          g2 = SetShaderSamplerBinding D shader ''tex1'' (PicaTexture 1) g1;
          g3 = SetShaderSamplerBinding D shader ''tex2'' (PicaTexture 2) g2;
          g4 = SetShaderSamplerBinding D shader ''tex_cube'' TextureCube g3;
          g5 = SetShaderSamplerBinding D shader ''texture_buffer_lut_lf'' TextureBufferLUT_LF g4;
          g6 = SetShaderSamplerBinding D shader ''texture_buffer_lut_rg'' TextureBufferLUT_RG g5;
          g7 = SetShaderSamplerBinding D shader ''texture_buffer_lut_rgba'' TextureBufferLUT_RGBA g6;
          g8 = SetShaderImageBinding D shader ''shadow_buffer'' ShadowBuffer g7;
          g9 = SetShaderImageBinding D shader ''shadow_texture_px'' ShadowTexturePX g8;
          g10 = SetShaderImageBinding D shader ''shadow_texture_nx'' ShadowTextureNX g9;
          g11 = SetShaderImageBinding D shader ''shadow_texture_py'' ShadowTexturePY g10;
          g12 = SetShaderImageBinding D shader ''shadow_texture_ny'' ShadowTextureNY g11;
          g13 = SetShaderImageBinding D shader ''shadow_texture_pz'' ShadowTexturePZ g12;
          g14 = SetShaderImageBinding D shader ''shadow_texture_nz'' ShadowTextureNZ g13
      in snd (OpenGLState_BindShaderProgram old_program g14))"

subsection \<open>Stage objects\<close>

text \<open>
  \<^verbatim>\<open>boost::variant<OGLShader, OGLProgram>\<close>: \<^verbatim>\<open>which() == 0\<close> is the shader
  object. The two wrappers are declared in \<^verbatim>\<open>gl_resource_manager.h\<close>, not in this
  source file; each holds one handle, which is 0 until the object is created (what
  \<^verbatim>\<open>ApplyTo\<close> and \<^verbatim>\<open>CreateProgram\<close> test with \<^verbatim>\<open>handle == 0\<close>). The
  temporary shader object of a separable stage is released when \<^verbatim>\<open>Create\<close> returns;
  the release is not recorded.
\<close>

datatype shader_or_program = OGLShader GLuint | OGLProgram GLuint

record OGLShaderStage =
  shader_or_program :: shader_or_program
  hash :: u64

definition OGLShaderStage_new :: "bool \<Rightarrow> OGLShaderStage" where
  "OGLShaderStage_new separable =
     \<lparr>shader_or_program = (if separable then OGLProgram 0 else OGLShader 0), hash = 0\<rparr>"

definition OGLShaderStage_Create ::
  "('r, 's) pica \<Rightarrow> driver \<Rightarrow> OGLShaderStage \<Rightarrow> string \<Rightarrow> shader_type \<Rightarrow> u64 \<Rightarrow> gl
     \<Rightarrow> error + (OGLShaderStage \<times> gl)" where
  "OGLShaderStage_Create P D this shader_code type h g =
     (case shader_or_program this of
        OGLShader _ \<Rightarrow>
          Inr (\<lparr>shader_or_program = OGLShader (OGLShader_Create D (calls g) shader_code type),
                hash = h\<rparr>,
               record_call (ShaderCreate shader_code type) g)
      | OGLProgram _ \<Rightarrow>
          (let shader = OGLShader_Create D (calls g) shader_code type;
               g1 = record_call (ShaderCreate shader_code type) g;
               program = OGLProgram_Create D (calls g1) True [shader];
               g2 = record_call (ProgramCreate True [shader]) g1
           in case SetShaderUniformBlockBindings P D program g2 of
                Inl e \<Rightarrow> Inl e
              | Inr g3 \<Rightarrow>
                  Inr (\<lparr>shader_or_program = OGLProgram program, hash = h\<rparr>,
                       if type = GL_FRAGMENT_SHADER then SetShaderSamplerBindings D program g3
                       else g3)))"

definition GetHandle :: "OGLShaderStage \<Rightarrow> GLuint" where
  "GetHandle this = (case shader_or_program this of OGLShader h \<Rightarrow> h | OGLProgram h \<Rightarrow> h)"

definition GetHash :: "OGLShaderStage \<Rightarrow> u64" where
  "GetHash this = hash this"

subsection \<open>The manager\<close>

text \<open>
  An \<^verbatim>\<open>OGLShaderStage*\<close>: null, uninitialised (the constructor leaves
  \<^verbatim>\<open>current_shaders\<close> unset), the address of one of the two singletons, or the
  address of the node of \<^verbatim>\<open>shaders\<close> with the given key (nodes of an
  \<^verbatim>\<open>unordered_map\<close> never move, and none is ever erased).
\<close>

datatype stage_ptr = Null | Uninitialised | Trivial_vertex | Trivial_geometry | Node u64

record ProgramCacheEntity =
  format :: GLenum
  binary :: bytes

record OpenGLState =
  draw_shader_program :: GLuint
  draw_program_pipeline :: GLuint

text \<open>
  The members of \<^verbatim>\<open>Impl\<close> under their own names, followed by what surrounds the
  manager: the OpenGL context, the \<^verbatim>\<open>OpenGLState\<close> that \<^verbatim>\<open>ApplyTo\<close> is
  given, the cache file (absent or its bytes), whether it can be opened for writing and the
  room left on its volume.
  \<^verbatim>\<open>binary_cache\<close> is kept as the sequence in which it is iterated, with one pair per
  key; lookups go through \<open>map_of\<close>. The library fixes no place for a new pair in that
  sequence; the model puts it last. An \<^verbatim>\<open>OGLProgram\<close> of \<^verbatim>\<open>program_cache\<close> is
  its handle, and \<^verbatim>\<open>program_cache[hash]\<close> of a missing key is a program with handle 0.
\<close>

record sys =
  separable :: bool
  is_amd :: bool
  current_vs :: stage_ptr
  current_gs :: stage_ptr
  current_fs :: stage_ptr
  binary_cache :: "(u64 \<times> ProgramCacheEntity) list"
  trivial_vertex_shader :: OGLShaderStage
  trivial_geometry_shader :: OGLShaderStage
  shaders_ref :: "u64 \<rightharpoonup> stage_ptr"
  shaders :: "u64 \<rightharpoonup> OGLShaderStage"
  pipeline :: GLuint
  program_cache :: "u64 \<rightharpoonup> GLuint"
  gl_context :: gl
  state :: OpenGLState
  cache_file :: "bytes option"
  cache_dir_ok :: bool
  disk_room :: nat

text \<open>\<^verbatim>\<open>unordered_map::emplace\<close> on the blob table: an existing key keeps its value.\<close>

definition emplace :: "u64 \<Rightarrow> ProgramCacheEntity \<Rightarrow> (u64 \<times> ProgramCacheEntity) list
    \<Rightarrow> (u64 \<times> ProgramCacheEntity) list" where
  "emplace k v m = (case map_of m k of Some _ \<Rightarrow> m | None \<Rightarrow> m @ [(k, v)])"

text \<open>\<^verbatim>\<open>p->...\<close> on a stage pointer.\<close>

definition deref :: "sys \<Rightarrow> stage_ptr \<Rightarrow> error + OGLShaderStage" where
  "deref s p =
     (case p of
        Null \<Rightarrow> Inl NullDereference
      | Uninitialised \<Rightarrow> Inl NullDereference
      | Trivial_vertex \<Rightarrow> Inr (trivial_vertex_shader s)
      | Trivial_geometry \<Rightarrow> Inr (trivial_geometry_shader s)
      | Node k \<Rightarrow> (case shaders s k of Some st \<Rightarrow> Inr st | None \<Rightarrow> Inl NullDereference))"

definition UseProgrammableVertexShader ::
  "('r, 's) pica \<Rightarrow> driver \<Rightarrow> 'r \<Rightarrow> 's \<Rightarrow> sys \<Rightarrow> error + (bool \<times> sys)" where
  "UseProgrammableVertexShader P D regs setup s =
     (let key = PicaVSConfig P regs setup;
          key_hash = ComputeHash64 P key
      in case shaders_ref s key_hash of
           None \<Rightarrow>
             (let vs_code = GenerateVertexShader P setup key (separable s);
                  g = record_call (Generate GL_VERTEX_SHADER key) (gl_context s)
              in if vs_code = [] then
                   Inr (False, s\<lparr>gl_context := g,
                                  shaders_ref := (shaders_ref s)(key_hash \<mapsto> Null),
                                  current_vs := Null\<rparr>)
                 else
                   (let code_hash = ComputeHash64 P (string_bytes vs_code)
                    in case shaders s code_hash of
                         Some _ \<Rightarrow>
                           Inr (True, s\<lparr>gl_context := g,
                                         shaders_ref := (shaders_ref s)(key_hash \<mapsto> Node code_hash),
                                         current_vs := Node code_hash\<rparr>)
                       | None \<Rightarrow>
                           (case OGLShaderStage_Create P D (OGLShaderStage_new (separable s))
                                   vs_code GL_VERTEX_SHADER code_hash g of
                              Inl e \<Rightarrow> Inl e
                            | Inr (cached_shader, g') \<Rightarrow>
                                Inr (True, s\<lparr>gl_context := g',
                                              shaders := (shaders s)(code_hash \<mapsto> cached_shader),
                                              shaders_ref := (shaders_ref s)(key_hash \<mapsto> Node code_hash),
                                              current_vs := Node code_hash\<rparr>))))
         | Some r \<Rightarrow> Inr (r \<noteq> Null, s\<lparr>current_vs := r\<rparr>))"

definition UseFixedGeometryShader ::
  "('r, 's) pica \<Rightarrow> driver \<Rightarrow> 'r \<Rightarrow> sys \<Rightarrow> error + sys" where
  "UseFixedGeometryShader P D regs s =
     (let key = PicaFixedGSConfig P regs;
          key_hash = ComputeHash64 P key
      in case shaders s key_hash of
           Some _ \<Rightarrow> Inr (s\<lparr>current_gs := Node key_hash\<rparr>)
         | None \<Rightarrow>
             (let gs_code = GenerateFixedGeometryShader P key (separable s);
                  g = record_call (Generate GL_GEOMETRY_SHADER key) (gl_context s)
              in case OGLShaderStage_Create P D (OGLShaderStage_new (separable s))
                        gs_code GL_GEOMETRY_SHADER key_hash g of
                   Inl e \<Rightarrow> Inl e
                 | Inr (cached_shader, g') \<Rightarrow>
                     Inr (s\<lparr>gl_context := g',
                            shaders := (shaders s)(key_hash \<mapsto> cached_shader),
                            current_gs := Node key_hash\<rparr>)))"

definition UseFragmentShader ::
  "('r, 's) pica \<Rightarrow> driver \<Rightarrow> 'r \<Rightarrow> sys \<Rightarrow> error + sys" where
  "UseFragmentShader P D regs s =
     (let key = PicaFSConfig_BuildFromRegs P regs;
          key_hash = ComputeHash64 P key
      in case shaders_ref s key_hash of
           None \<Rightarrow>
             (let fs_code = GenerateFragmentShader P key (separable s);
                  g = record_call (Generate GL_FRAGMENT_SHADER key) (gl_context s);
                  code_hash = ComputeHash64 P (string_bytes fs_code)
              in case shaders s code_hash of
                   Some _ \<Rightarrow>
                     Inr (s\<lparr>gl_context := g,
                            shaders_ref := (shaders_ref s)(key_hash \<mapsto> Node code_hash),
                            current_fs := Node code_hash\<rparr>)
                 | None \<Rightarrow>
                     (case OGLShaderStage_Create P D (OGLShaderStage_new (separable s))
                             fs_code GL_FRAGMENT_SHADER code_hash g of
                        Inl e \<Rightarrow> Inl e
                      | Inr (cached_shader, g') \<Rightarrow>
                          Inr (s\<lparr>gl_context := g',
                                 shaders := (shaders s)(code_hash \<mapsto> cached_shader),
                                 shaders_ref := (shaders_ref s)(key_hash \<mapsto> Node code_hash),
                                 current_fs := Node code_hash\<rparr>)))
         | Some r \<Rightarrow> Inr (s\<lparr>current_fs := r\<rparr>))"

definition UseTrivialVertexShader :: "sys \<Rightarrow> sys" where
  "UseTrivialVertexShader s = s\<lparr>current_vs := Trivial_vertex\<rparr>"

definition UseTrivialGeometryShader :: "sys \<Rightarrow> sys" where
  "UseTrivialGeometryShader s = s\<lparr>current_gs := Trivial_geometry\<rparr>"

definition CreateProgram ::
  "driver \<Rightarrow> GLuint \<Rightarrow> u64 \<Rightarrow> GLuint \<Rightarrow> GLuint \<Rightarrow> GLuint \<Rightarrow> sys \<Rightarrow> GLuint \<times> sys" where
  "CreateProgram D program h vs gs fs s =
     (let (program1, s1) =
        (case map_of (binary_cache s) h of
           None \<Rightarrow> (program, s)
         | Some e \<Rightarrow>
             (let p = OGLProgram_CreateBinary D (calls (gl_context s)) (format e) (binary e);
                  s' = s\<lparr>gl_context :=
                          record_call (ProgramCreateBinary (format e) (binary e)) (gl_context s)\<rparr>
              in (p, if p = 0 then s'\<lparr>binary_cache := []\<rparr> else s')))
      in if program1 = 0 then
           (let p = OGLProgram_Create D (calls (gl_context s1)) False [vs, gs, fs];
                g1 = record_call (ProgramCreate False [vs, gs, fs]) (gl_context s1);
                (fmt, bin) = OGLProgram_GetProgramBinary D (calls g1) p;
                g2 = record_call (GetProgramBinary p) g1
            in (p, s1\<lparr>gl_context := g2,
                      binary_cache :=
                        (if bin \<noteq> [] then emplace h \<lparr>format = fmt, binary = bin\<rparr> (binary_cache s1)
                         else binary_cache s1)\<rparr>))
         else (program1, s1))"

definition ApplyTo :: "('r, 's) pica \<Rightarrow> driver \<Rightarrow> sys \<Rightarrow> error + sys" where
  "ApplyTo P D s =
     (case deref s (current_vs s) of Inl e \<Rightarrow> Inl e | Inr vs_stage \<Rightarrow>
     (case deref s (current_gs s) of Inl e \<Rightarrow> Inl e | Inr gs_stage \<Rightarrow>
     (case deref s (current_fs s) of Inl e \<Rightarrow> Inl e | Inr fs_stage \<Rightarrow>
      (let vs = GetHandle vs_stage; gs = GetHandle gs_stage; fs = GetHandle fs_stage
       in if separable s then
            (let g0 = gl_context s;
                 g1 = (if is_amd s then
                         record_call (glUseProgramStages (pipeline s)
                           [GL_VERTEX_SHADER_BIT, GL_GEOMETRY_SHADER_BIT, GL_FRAGMENT_SHADER_BIT] 0) g0
                       else g0);
                 g2 = record_call (glUseProgramStages (pipeline s) [GL_VERTEX_SHADER_BIT] vs) g1;
                 g3 = record_call (glUseProgramStages (pipeline s) [GL_GEOMETRY_SHADER_BIT] gs) g2;
                 g4 = record_call (glUseProgramStages (pipeline s) [GL_FRAGMENT_SHADER_BIT] fs) g3
             in Inr (s\<lparr>gl_context := g4,
                      state := \<lparr>draw_shader_program = 0,
                                draw_program_pipeline = pipeline s\<rparr>\<rparr>))
          else
            (let h = ComputeHash64 P (u64_bytes (GetHash vs_stage) @ u64_bytes (GetHash gs_stage)
                                       @ u64_bytes (GetHash fs_stage));
                 cached_program = (case program_cache s h of None \<Rightarrow> 0 | Some p \<Rightarrow> p)
             in if cached_program = 0 then
                  (let (p, s1) = CreateProgram D cached_program h vs gs fs s
                   in case SetShaderUniformBlockBindings P D p (gl_context s1) of
                        Inl e \<Rightarrow> Inl e
                      | Inr g1 \<Rightarrow>
                          Inr (s1\<lparr>gl_context := SetShaderSamplerBindings D p g1,
                                 program_cache := (program_cache s1)(h \<mapsto> p),
                                 state := \<lparr>draw_shader_program = p, draw_program_pipeline = 0\<rparr>\<rparr>))
                else
                  Inr (s\<lparr>state := \<lparr>draw_shader_program = cached_program,
                                    draw_program_pipeline = 0\<rparr>\<rparr>))))))"

subsection \<open>The persistence store\<close>

text \<open>
  Modelled from the spec: \<^verbatim>\<open>FileUtil::IOFile\<close>, the file I/O primitive that the
  spec names as an external collaborator and that is not part of this source file. A
  file opened for reading holds the bytes not yet read, one opened for writing the bytes
  written so far and the room left. A transfer moves as many bytes as there are (or as
  fit); one that moves fewer than asked clears the good flag, which is never set again.
  A short read leaves the tail of the destination buffer as it was.
\<close>

record IOFile =
  unread :: bytes
  written :: bytes
  room :: nat
  m_good :: bool

text \<open>Modelled from the spec: \<^verbatim>\<open>IOFile(name, "rb")\<close>; a file that does not exist
  is not good.\<close>

definition IOFile_open_rb :: "bytes option \<Rightarrow> IOFile" where
  "IOFile_open_rb file =
     (case file of
        None \<Rightarrow> \<lparr>unread = [], written = [], room = 0, m_good = False\<rparr>
      | Some bs \<Rightarrow> \<lparr>unread = bs, written = [], room = 0, m_good = True\<rparr>)"

text \<open>Modelled from the spec: \<^verbatim>\<open>IOFile(name, "wb")\<close>; the file starts empty and is
  good if it could be opened.\<close>

definition IOFile_open_wb :: "bool \<Rightarrow> nat \<Rightarrow> IOFile" where
  "IOFile_open_wb ok r = \<lparr>unread = [], written = [], room = r, m_good = ok\<rparr>"

text \<open>Modelled from the spec: \<^verbatim>\<open>IOFile::IsGood\<close>.\<close>

definition IsGood :: "IOFile \<Rightarrow> bool" where
  "IsGood f = m_good f"

text \<open>Modelled from the spec: \<^verbatim>\<open>IOFile::ReadBytes(data, length)\<close>, given the
  destination buffer as it is before the call and returning it as it is after.\<close>

definition ReadBytes :: "bytes \<Rightarrow> IOFile \<Rightarrow> bytes \<times> IOFile" where
  "ReadBytes buf f =
     (let got = take (length buf) (unread f)
      in (got @ drop (length got) buf,
          f\<lparr>unread := drop (length buf) (unread f),
            m_good := (m_good f \<and> length got = length buf)\<rparr>))"

text \<open>Modelled from the spec: \<^verbatim>\<open>IOFile::WriteBytes(data, length)\<close>.\<close>

definition WriteBytes :: "bytes \<Rightarrow> IOFile \<Rightarrow> IOFile" where
  "WriteBytes bs f =
     (let put = take (room f) bs
      in f\<lparr>written := written f @ put,
           room := room f - length put,
           m_good := (m_good f \<and> length put = length bs)\<rparr>)"

definition PROGRAM_CACHE_VERSION :: u32 where
  "PROGRAM_CACHE_VERSION = 0x2"

text \<open>\<^verbatim>\<open>std::vector::resize\<close>: cut, or fill up with zero bytes.\<close>

definition resize :: "nat \<Rightarrow> bytes \<Rightarrow> bytes" where
  "resize n bs = take n bs @ replicate (n - length bs) 0"

text \<open>The loop of \<^verbatim>\<open>SaveProgramCache\<close>; the flag says that the file was deleted.\<close>

fun save_entries :: "(u64 \<times> ProgramCacheEntity) list \<Rightarrow> IOFile \<Rightarrow> IOFile \<times> bool" where
  "save_entries [] file = (file, False)"
| "save_entries (pair # rest) file =
     (let hash_v = fst pair;
          format_v = format (snd pair);
          length_v = (of_nat (length (binary (snd pair))) :: u32);
          f1 = WriteBytes (u64_bytes hash_v) file;
          f2 = WriteBytes (u32_bytes format_v) f1;
          f3 = WriteBytes (u32_bytes length_v) f2;
          f4 = WriteBytes (take (unat length_v) (binary (snd pair))) f3
      in if \<not> IsGood f4 then (f4, True) else save_entries rest f4)"

definition SaveProgramCache :: "sys \<Rightarrow> sys" where
  "SaveProgramCache s =
     (let file = IOFile_open_wb (cache_dir_ok s) (disk_room s)
      in if \<not> IsGood file then s
         else
           (let f1 = WriteBytes (u32_bytes PROGRAM_CACHE_VERSION) file;
                count = (of_nat (length (binary_cache s)) :: u32);
                f2 = WriteBytes (u32_bytes count) f1;
                (f3, deleted) = save_entries (binary_cache s) f2
            in s\<lparr>cache_file := (if deleted then None else Some (written f3))\<rparr>))"

text \<open>
  The loop of \<^verbatim>\<open>LoadProgramCache\<close>. Its locals \<^verbatim>\<open>hash\<close>, \<^verbatim>\<open>format\<close> and
  \<^verbatim>\<open>length\<close> are declared without a value, so the caller supplies what they hold at
  first. \<^verbatim>\<open>binary\<close> keeps its bytes from one round to the next: the constructor of
  \<^verbatim>\<open>ProgramCacheEntity\<close> copies its (named) argument. The flag says that the file was
  deleted.
\<close>

function load_entries ::
  "int \<Rightarrow> u64 \<times> u32 \<times> u32 \<times> bytes \<Rightarrow> IOFile \<Rightarrow> (u64 \<times> ProgramCacheEntity) list
     \<Rightarrow> (u64 \<times> ProgramCacheEntity) list \<times> bool" where
  "load_entries count locals file cache =
     (if count > 0 then
        (let (hash_v, format_v, length_v, binary_v) = locals;
             (hb, f1) = ReadBytes (u64_bytes hash_v) file;
             (fb, f2) = ReadBytes (u32_bytes format_v) f1;
             (lb, f3) = ReadBytes (u32_bytes length_v) f2;
             (bin, f4) = ReadBytes (resize (unat (bytes_u32 lb)) binary_v) f3;
             cache' = emplace (bytes_u64 hb) \<lparr>format = bytes_u32 fb, binary = bin\<rparr> cache
         in if \<not> IsGood f4 then (cache', True)
            else load_entries (count - 1) (bytes_u64 hb, bytes_u32 fb, bytes_u32 lb, bin) f4 cache')
      else (cache, False))"
  by pat_completeness auto
termination
  by (relation "measure (\<lambda>(count, locals, file, cache). nat count)") auto

declare load_entries.simps [simp del]

definition LoadProgramCache :: "u64 \<times> u32 \<times> u32 \<Rightarrow> sys \<Rightarrow> sys" where
  "LoadProgramCache junk s =
     (let file = IOFile_open_rb (cache_file s)
      in if \<not> IsGood file then s
         else
           (let (vb, f1) = ReadBytes (u32_bytes 0) file;
                verion = bytes_u32 vb
            in if verion \<noteq> PROGRAM_CACHE_VERSION then s\<lparr>cache_file := None\<rparr>
               else
                 (let (cb, f2) = ReadBytes (u32_bytes 0) f1;
                      count = sint (bytes_u32 cb);
                      (hash_v, format_v, length_v) = junk;
                      (cache, deleted) =
                        load_entries count (hash_v, format_v, length_v, []) f2 (binary_cache s)
                  in s\<lparr>binary_cache := cache,
                       cache_file := (if deleted then None else cache_file s)\<rparr>)))"

subsection \<open>Construction, destruction and the public interface\<close>

text \<open>
  What the constructor finds around it: the OpenGL context, the render state, the cache
  file, and what the three uninitialised locals of the loader hold.
\<close>

definition Impl ::
  "('r, 's) pica \<Rightarrow> driver \<Rightarrow> bool \<Rightarrow> bool \<Rightarrow> u64 \<times> u32 \<times> u32 \<Rightarrow> gl \<Rightarrow> OpenGLState
     \<Rightarrow> bytes option \<Rightarrow> bool \<Rightarrow> nat \<Rightarrow> error + sys" where
  "Impl P D sep amd junk g st file dir_ok free =
     (let s0 = \<lparr>separable = sep, is_amd = amd,
                current_vs = Uninitialised, current_gs = Uninitialised,
                current_fs = Uninitialised,
                binary_cache = [],
                trivial_vertex_shader = OGLShaderStage_new sep,
                trivial_geometry_shader = OGLShaderStage_new sep,
                shaders_ref = Map.empty, shaders = Map.empty,
                pipeline = 0, program_cache = Map.empty,
                gl_context = g, state = st,
                cache_file = file, cache_dir_ok = dir_ok, disk_room = free\<rparr>;
          s1 = (if sep then
                  s0\<lparr>pipeline := OGLPipeline_Create D (calls g),
                     gl_context := record_call PipelineCreate g\<rparr>
                else if use_shader_cache P then LoadProgramCache junk s0
                else s0)
      in case OGLShaderStage_Create P D (trivial_vertex_shader s1)
                (GenerateTrivialVertexShader P sep) GL_VERTEX_SHADER 0 (gl_context s1) of
           Inl e \<Rightarrow> Inl e
         | Inr (tvs, g') \<Rightarrow> Inr (s1\<lparr>trivial_vertex_shader := tvs, gl_context := g'\<rparr>))"

definition Impl_destroy :: "('r, 's) pica \<Rightarrow> sys \<Rightarrow> sys" where
  "Impl_destroy P s =
     (if \<not> separable s \<and> use_shader_cache P then SaveProgramCache s else s)"

text \<open>The six public operations of \<^verbatim>\<open>ShaderProgramManager\<close>, and a sequence of them.\<close>

datatype ('r, 's) request =
    ReqUseProgrammableVertexShader 'r 's
  | ReqUseTrivialVertexShader
  | ReqUseFixedGeometryShader 'r
  | ReqUseTrivialGeometryShader
  | ReqUseFragmentShader 'r
  | ReqApplyTo

fun perform :: "('r, 's) pica \<Rightarrow> driver \<Rightarrow> ('r, 's) request \<Rightarrow> sys \<Rightarrow> error + sys" where
  "perform P D (ReqUseProgrammableVertexShader regs setup) s =
     (case UseProgrammableVertexShader P D regs setup s of
        Inl e \<Rightarrow> Inl e | Inr (_, s') \<Rightarrow> Inr s')"
| "perform P D ReqUseTrivialVertexShader s = Inr (UseTrivialVertexShader s)"
| "perform P D (ReqUseFixedGeometryShader regs) s = UseFixedGeometryShader P D regs s"
| "perform P D ReqUseTrivialGeometryShader s = Inr (UseTrivialGeometryShader s)"
| "perform P D (ReqUseFragmentShader regs) s = UseFragmentShader P D regs s"
| "perform P D ReqApplyTo s = ApplyTo P D s"

fun run :: "('r, 's) pica \<Rightarrow> driver \<Rightarrow> ('r, 's) request list \<Rightarrow> sys \<Rightarrow> error + sys" where
  "run P D [] s = Inr s"
| "run P D (r # rs) s = (case perform P D r s of Inl e \<Rightarrow> Inl e | Inr s' \<Rightarrow> run P D rs s')"

subsection \<open>Reading the record of calls\<close>

text \<open>The sources compiled, the generator runs and the programs made, newest first.\<close>

fun compiled :: "call list \<Rightarrow> (string \<times> shader_type) list" where
  "compiled [] = []"
| "compiled (ShaderCreate code t # cs) = (code, t) # compiled cs"
| "compiled (c # cs) = compiled cs"

fun generated :: "call list \<Rightarrow> (shader_type \<times> bytes) list" where
  "generated [] = []"
| "generated (Generate t key # cs) = (t, key) # generated cs"
| "generated (c # cs) = generated cs"

fun programs_made :: "call list \<Rightarrow> call list" where
  "programs_made [] = []"
| "programs_made (ProgramCreate False hs # cs) = ProgramCreate False hs # programs_made cs"
| "programs_made (ProgramCreateBinary f b # cs) = ProgramCreateBinary f b # programs_made cs"
| "programs_made (c # cs) = programs_made cs"

subsection \<open>An example configuration\<close>

text \<open>
  A small instance of the parameters, used to run the operations on concrete inputs: keys
  are one to three bytes, the hash is the polynomial hash with base 31, every
  programmable vertex configuration with a non-zero setup generates the same text and
  the driver numbers its objects by the calls made so far. \<open>example_sys\<close> is the manager
  straight after construction.
\<close>

definition example_pica :: "(nat, nat) pica" where
  "example_pica =
     \<lparr>ComputeHash64 = (\<lambda>bs. foldl (\<lambda>h b. h * 31 + ucast b) 0 bs),
      PicaVSConfig = (\<lambda>r s. [of_nat r, of_nat s]),
      PicaFixedGSConfig = (\<lambda>r. [of_nat r]),
      PicaFSConfig_BuildFromRegs = (\<lambda>r. [of_nat r, 0, 1]),
      GenerateVertexShader = (\<lambda>s key sep. if s = 0 then [] else ''v''),
      GenerateFixedGeometryShader = (\<lambda>key sep. ''g''),
      GenerateFragmentShader = (\<lambda>key sep. ''f''),
      GenerateTrivialVertexShader = (\<lambda>sep. ''t''),
      use_shader_cache = True,
      sizeof_UniformData = 16,
      sizeof_VSUniformData = 32\<rparr>"

definition example_driver :: driver where
  "example_driver =
     \<lparr>OGLShader_Create = (\<lambda>cs code t. of_nat (length cs) + 1),
      OGLProgram_Create = (\<lambda>cs sep hs. of_nat (length cs) + 1),
      OGLProgram_CreateBinary = (\<lambda>cs f b. if f = 1 then of_nat (length cs) + 1 else 0),
      OGLProgram_GetProgramBinary = (\<lambda>cs p. (1, [1, 2, 3])),
      OGLPipeline_Create = (\<lambda>cs. 9),
      glGetUniformBlockIndex = (\<lambda>cs p n. if n = ''shader_data'' then 0 else GL_INVALID_INDEX),
      glGetActiveUniformBlock_DATA_SIZE = (\<lambda>cs p i. 16),
      glGetUniformLocation = (\<lambda>cs p n. if n = ''tex0'' then 0 else - 1)\<rparr>"

definition example_sys :: "bool \<Rightarrow> sys" where
  "example_sys sep =
     \<lparr>separable = sep, is_amd = False,
      current_vs = Uninitialised, current_gs = Uninitialised, current_fs = Uninitialised,
      binary_cache = [],
      trivial_vertex_shader =
        \<lparr>shader_or_program = (if sep then OGLProgram 3 else OGLShader 1), hash = 0\<rparr>,
      trivial_geometry_shader = OGLShaderStage_new sep,
      shaders_ref = Map.empty, shaders = Map.empty,
      pipeline = (if sep then 9 else 0), program_cache = Map.empty,
      gl_context = \<lparr>calls = (if sep then
                     [glUniformBlockBinding 3 0 Common, ProgramCreate True [2],
                      ShaderCreate ''t'' GL_VERTEX_SHADER, PipelineCreate]
                   else [ShaderCreate ''t'' GL_VERTEX_SHADER]),
                   bound_program = 0\<rparr>,
      state = \<lparr>draw_shader_program = 0, draw_program_pipeline = 0\<rparr>,
      cache_file = None, cache_dir_ok = True, disk_room = 4096\<rparr>"

subsection \<open>Requests that resolve a configuration\<close>

text \<open>The three resolving requests, and the active reference that a request selects.\<close>

fun is_resolve :: "('r, 's) request \<Rightarrow> bool" where
  "is_resolve (ReqUseProgrammableVertexShader regs su) = True"
| "is_resolve (ReqUseFixedGeometryShader regs) = True"
| "is_resolve (ReqUseFragmentShader regs) = True"
| "is_resolve r = False"

fun selected :: "('r, 's) request \<Rightarrow> sys \<Rightarrow> stage_ptr" where
  "selected (ReqUseProgrammableVertexShader regs su) s = current_vs s"
| "selected ReqUseTrivialVertexShader s = current_vs s"
| "selected (ReqUseFixedGeometryShader regs) s = current_gs s"
| "selected ReqUseTrivialGeometryShader s = current_gs s"
| "selected (ReqUseFragmentShader regs) s = current_fs s"
| "selected ReqApplyTo s = Null"

subsection \<open>Binding calls\<close>

text \<open>The calls that only wire a uniform block, a sampler or an image unit of a program.\<close>

fun is_binding :: "call \<Rightarrow> bool" where
  "is_binding (glUniformBlockBinding p i b) = True"
| "is_binding (BindShaderProgram p) = True"
| "is_binding (glUniform1i l u) = True"
| "is_binding c = False"

text \<open>A blob table for the example manager: the example driver accepts format 1 only.\<close>

definition example_blobs :: "(u64 \<times> ProgramCacheEntity) list" where
  "example_blobs = [(7, \<lparr>format = 5, binary = [9, 9]\<rparr>), (8, \<lparr>format = 1, binary = [4]\<rparr>)]"

text \<open>
  The key hash and the generated text of a request that resolves a vertex or a fragment
  configuration, as \<^verbatim>\<open>UseProgrammableVertexShader\<close> and \<^verbatim>\<open>UseFragmentShader\<close>
  compute them.
\<close>

fun vf_resolution :: "('r, 's) pica \<Rightarrow> bool \<Rightarrow> ('r, 's) request \<Rightarrow> (u64 \<times> string) option" where
  "vf_resolution P sep (ReqUseProgrammableVertexShader regs su) =
     Some (ComputeHash64 P (PicaVSConfig P regs su),
           GenerateVertexShader P su (PicaVSConfig P regs su) sep)"
| "vf_resolution P sep (ReqUseFragmentShader regs) =
     Some (ComputeHash64 P (PicaFSConfig_BuildFromRegs P regs),
           GenerateFragmentShader P (PicaFSConfig_BuildFromRegs P regs) sep)"
| "vf_resolution P sep r = None"

subsection \<open>The store file, as the specification words it\<close>

text \<open>
  The format of the store in the words of the specification: a version tag (2), an entry
  count, then for each entry the 64-bit key, the 32-bit format tag, the 32-bit byte length
  and the raw bytes. It is what \<^verbatim>\<open>SaveProgramCache\<close> is compared with.
\<close>

definition entry_image :: "u64 \<times> ProgramCacheEntity \<Rightarrow> bytes" where
  "entry_image p =
     u64_bytes (fst p) @ u32_bytes (format (snd p))
       @ u32_bytes (of_nat (length (binary (snd p)))) @ binary (snd p)"

definition store_image :: "(u64 \<times> ProgramCacheEntity) list \<Rightarrow> bytes" where
  "store_image t = u32_bytes 2 @ u32_bytes (of_nat (length t)) @ concat (map entry_image t)"


text \<open>A blob of 4 GiB: its length does not fit the 32-bit length field.\<close>

definition oversized_blob :: bytes where
  "oversized_blob = replicate (2 ^ 32) 0"

section \<open>Properties\<close>

subsection \<open>What the binding helpers add to the record of calls\<close>

lemma SamplerBinding_calls:
  "compiled (calls (SetShaderSamplerBinding D p n u g)) = compiled (calls g)"
  "generated (calls (SetShaderSamplerBinding D p n u g)) = generated (calls g)"
  "programs_made (calls (SetShaderSamplerBinding D p n u g)) = programs_made (calls g)"
  "bound_program (SetShaderSamplerBinding D p n u g) = bound_program g"
  by (simp_all add: SetShaderSamplerBinding_def record_call_def Let_def)

lemma ImageBinding_calls:
  "compiled (calls (SetShaderImageBinding D p n u g)) = compiled (calls g)"
  "generated (calls (SetShaderImageBinding D p n u g)) = generated (calls g)"
  "programs_made (calls (SetShaderImageBinding D p n u g)) = programs_made (calls g)"
  "bound_program (SetShaderImageBinding D p n u g) = bound_program g"
  by (simp_all add: SetShaderImageBinding_def record_call_def Let_def)

lemma SamplerBindings_calls:
  "compiled (calls (SetShaderSamplerBindings D p g)) = compiled (calls g)"
  "generated (calls (SetShaderSamplerBindings D p g)) = generated (calls g)"
  "programs_made (calls (SetShaderSamplerBindings D p g)) = programs_made (calls g)"
  "bound_program (SetShaderSamplerBindings D p g) = bound_program g"
  by (simp_all add: SetShaderSamplerBindings_def OpenGLState_BindShaderProgram_def
      record_call_def Let_def SamplerBinding_calls ImageBinding_calls)

lemma UniformBlockBinding_calls:
  assumes "SetShaderUniformBlockBinding D p n b e g = Inr g'"
  shows "compiled (calls g') = compiled (calls g)"
    and "generated (calls g') = generated (calls g)"
    and "programs_made (calls g') = programs_made (calls g)"
    and "bound_program g' = bound_program g"
  using assms
  by (auto simp: SetShaderUniformBlockBinding_def record_call_def Let_def split: if_splits)

lemma UniformBlockBindings_calls:
  assumes "SetShaderUniformBlockBindings P D p g = Inr g'"
  shows "compiled (calls g') = compiled (calls g)"
    and "generated (calls g') = generated (calls g)"
    and "programs_made (calls g') = programs_made (calls g)"
    and "bound_program g' = bound_program g"
  using assms
  by (auto simp: SetShaderUniformBlockBindings_def UniformBlockBinding_calls split: sum.splits)

lemma SamplerBinding_adds:
  "\<exists>new. calls (SetShaderSamplerBinding D p n u g) = new @ calls g \<and> list_all is_binding new"
  by (simp add: SetShaderSamplerBinding_def record_call_def Let_def)

lemma ImageBinding_adds:
  "\<exists>new. calls (SetShaderImageBinding D p n u g) = new @ calls g \<and> list_all is_binding new"
  by (simp add: SetShaderImageBinding_def record_call_def Let_def)

lemma adds_trans:
  assumes "\<exists>new. calls g1 = new @ calls g \<and> list_all is_binding new"
      and "\<exists>new. calls g2 = new @ calls g1 \<and> list_all is_binding new"
  shows "\<exists>new. calls g2 = new @ calls g \<and> list_all is_binding new"
proof -
  from assms obtain a b where "calls g1 = a @ calls g" "list_all is_binding a"
    "calls g2 = b @ calls g1" "list_all is_binding b" by blast
  then have "calls g2 = (b @ a) @ calls g \<and> list_all is_binding (b @ a)" by simp
  then show ?thesis by blast
qed

lemma Bind_adds:
  "\<exists>new. calls (snd (OpenGLState_BindShaderProgram p g)) = new @ calls g \<and> list_all is_binding new"
  by (simp add: OpenGLState_BindShaderProgram_def record_call_def)

lemma SamplerBindings_adds:
  "\<exists>new. calls (SetShaderSamplerBindings D p g) = new @ calls g \<and> list_all is_binding new"
  unfolding SetShaderSamplerBindings_def Let_def split_def
  by (intro adds_trans [OF _ Bind_adds] adds_trans [OF _ ImageBinding_adds]
      adds_trans [OF _ SamplerBinding_adds] Bind_adds)

lemma UniformBlockBinding_adds:
  assumes "SetShaderUniformBlockBinding D p n b e g = Inr g'"
  shows "\<exists>new. calls g' = new @ calls g \<and> list_all is_binding new"
  using assms
  by (auto simp: SetShaderUniformBlockBinding_def record_call_def Let_def split: if_splits)

lemma UniformBlockBindings_adds:
  assumes "SetShaderUniformBlockBindings P D p g = Inr g'"
  shows "\<exists>new. calls g' = new @ calls g \<and> list_all is_binding new"
  using assms unfolding SetShaderUniformBlockBindings_def
  by (auto split: sum.splits intro: adds_trans dest!: UniformBlockBinding_adds)


lemma bindings_invisible:
  assumes "list_all is_binding new"
  shows "compiled (new @ cs) = compiled cs"
    and "generated (new @ cs) = generated cs"
    and "programs_made (new @ cs) = programs_made cs"
proof -
  have "compiled (new @ cs) = compiled cs \<and> generated (new @ cs) = generated cs
      \<and> programs_made (new @ cs) = programs_made cs"
    using assms
  proof (induction new)
    case Nil
    show ?case by simp
  next
    case (Cons c new)
    then show ?case by (cases c) simp_all
  qed
  then show "compiled (new @ cs) = compiled cs"
    and "generated (new @ cs) = generated cs"
    and "programs_made (new @ cs) = programs_made cs"
    by simp_all
qed

lemma bindings_not_programs:
  assumes "list_all is_binding new" and "ProgramCreate b hs \<in> set new"
  shows False
  using assms by (auto simp: list_all_iff)

subsection \<open>Creating a stage object\<close>

lemma Stage_Create_effect:
  assumes "OGLShaderStage_Create P D this code t h g = Inr (st, g')"
  shows "compiled (calls g') = (code, t) # compiled (calls g)"
    and "generated (calls g') = generated (calls g)"
    and "programs_made (calls g') = programs_made (calls g)"
    and "GetHash st = h"
  using assms
  by (auto simp: OGLShaderStage_Create_def record_call_def Let_def GetHash_def
      UniformBlockBindings_calls SamplerBindings_calls
      split: shader_or_program.splits sum.splits if_splits)

lemma Stage_Create_monolithic:
  "OGLShaderStage_Create P D (OGLShaderStage_new False) code t h g =
     Inr (\<lparr>shader_or_program = OGLShader (OGLShader_Create D (calls g) code t), hash = h\<rparr>,
          record_call (ShaderCreate code t) g)"
  by (simp add: OGLShaderStage_Create_def OGLShaderStage_new_def)

lemma OGLShaderStage_new_zero:
  "GetHash (OGLShaderStage_new sep) = 0" "GetHandle (OGLShaderStage_new sep) = 0"
  by (simp_all add: OGLShaderStage_new_def GetHash_def GetHandle_def)


subsection \<open>What each operation leaves alone\<close>

lemma CreateProgram_frame:
  "CreateProgram D p h vs gs fs s = (p', s') \<Longrightarrow>
     s' = s\<lparr>gl_context := gl_context s', binary_cache := binary_cache s'\<rparr>"
  by (auto simp: CreateProgram_def Let_def split: option.splits if_splits prod.splits)

lemma CreateProgram_frameE:
  assumes "CreateProgram D p h vs gs fs s = (p', s')"
  obtains g bc where "s' = s\<lparr>gl_context := g, binary_cache := bc\<rparr>"
  using CreateProgram_frame [OF assms] by blast

lemma ApplyTo_frame:
  "ApplyTo P D s = Inr s' \<Longrightarrow>
     s' = s\<lparr>gl_context := gl_context s', binary_cache := binary_cache s',
            program_cache := program_cache s', state := state s'\<rparr>"
  unfolding ApplyTo_def Let_def
  by (auto split: sum.splits if_splits prod.splits elim!: CreateProgram_frameE)

lemma ApplyTo_frameE:
  assumes "ApplyTo P D s = Inr s'"
  obtains g bc pc st where
    "s' = s\<lparr>gl_context := g, binary_cache := bc, program_cache := pc, state := st\<rparr>"
  using ApplyTo_frame [OF assms] by blast

lemma UseProgrammableVertexShader_frame:
  "UseProgrammableVertexShader P D regs setup s = Inr (b, s') \<Longrightarrow>
     s' = s\<lparr>gl_context := gl_context s', shaders := shaders s',
            shaders_ref := shaders_ref s', current_vs := current_vs s'\<rparr>"
  unfolding UseProgrammableVertexShader_def Let_def
  by (auto split: option.splits sum.splits if_splits prod.splits)

lemma UseProgrammableVertexShader_frameE:
  assumes "UseProgrammableVertexShader P D regs su s = Inr (b, s')"
  obtains g sh sr p where
    "s' = s\<lparr>gl_context := g, shaders := sh, shaders_ref := sr, current_vs := p\<rparr>"
  using UseProgrammableVertexShader_frame [OF assms] by blast

lemma UseFixedGeometryShader_frame:
  "UseFixedGeometryShader P D regs s = Inr s' \<Longrightarrow>
     s' = s\<lparr>gl_context := gl_context s', shaders := shaders s',
            current_gs := current_gs s'\<rparr>"
  unfolding UseFixedGeometryShader_def Let_def
  by (auto split: option.splits sum.splits if_splits prod.splits)

lemma UseFixedGeometryShader_frameE:
  assumes "UseFixedGeometryShader P D regs s = Inr s'"
  obtains g sh p where "s' = s\<lparr>gl_context := g, shaders := sh, current_gs := p\<rparr>"
  using UseFixedGeometryShader_frame [OF assms] by blast

lemma UseFragmentShader_frame:
  "UseFragmentShader P D regs s = Inr s' \<Longrightarrow>
     s' = s\<lparr>gl_context := gl_context s', shaders := shaders s',
            shaders_ref := shaders_ref s', current_fs := current_fs s'\<rparr>"
  unfolding UseFragmentShader_def Let_def
  by (auto split: option.splits sum.splits if_splits prod.splits)

lemma UseFragmentShader_frameE:
  assumes "UseFragmentShader P D regs s = Inr s'"
  obtains g sh sr p where
    "s' = s\<lparr>gl_context := g, shaders := sh, shaders_ref := sr, current_fs := p\<rparr>"
  using UseFragmentShader_frame [OF assms] by blast

lemma perform_frame:
  assumes "perform P D r s = Inr s'"
  shows "separable s' = separable s" and "is_amd s' = is_amd s" and "pipeline s' = pipeline s"
    and "trivial_vertex_shader s' = trivial_vertex_shader s"
    and "trivial_geometry_shader s' = trivial_geometry_shader s"
    and "cache_file s' = cache_file s"
  using assms
  by (cases r;
      auto simp: UseTrivialVertexShader_def UseTrivialGeometryShader_def split: sum.splits
        elim!: ApplyTo_frameE UseProgrammableVertexShader_frameE UseFixedGeometryShader_frameE
          UseFragmentShader_frameE)+

lemma run_frame:
  assumes "run P D rs s = Inr s'"
  shows "separable s' = separable s" and "is_amd s' = is_amd s" and "pipeline s' = pipeline s"
    and "trivial_vertex_shader s' = trivial_vertex_shader s"
    and "trivial_geometry_shader s' = trivial_geometry_shader s"
    and "cache_file s' = cache_file s"
  using assms
  by (induction rs arbitrary: s; auto split: sum.splits simp: perform_frame)+

lemma LoadProgramCache_frame:
  "separable (LoadProgramCache junk s) = separable s"
  "is_amd (LoadProgramCache junk s) = is_amd s"
  "trivial_vertex_shader (LoadProgramCache junk s) = trivial_vertex_shader s"
  "trivial_geometry_shader (LoadProgramCache junk s) = trivial_geometry_shader s"
  "program_cache (LoadProgramCache junk s) = program_cache s"
  "gl_context (LoadProgramCache junk s) = gl_context s"
  by (simp_all add: LoadProgramCache_def Let_def split: prod.splits)

lemma Impl_separable_fields:
  assumes "Impl P D True amd junk g st fl ok free = Inr s0"
  shows "separable s0" and "program_cache s0 = Map.empty" and "binary_cache s0 = []"
    and "cache_file s0 = fl" and "pipeline s0 = OGLPipeline_Create D (calls g)"
  using assms
  by (auto simp: Impl_def Let_def split: sum.splits)

lemma Impl_fields:
  assumes "Impl P D sep amd junk g st fl ok free = Inr s0"
  shows "separable s0 = sep" and "is_amd s0 = amd"
    and "trivial_geometry_shader s0 = OGLShaderStage_new sep"
    and "program_cache s0 = Map.empty"
  using assms
  by (auto simp: Impl_def Let_def LoadProgramCache_frame split: sum.splits if_splits)

subsection \<open>Recorded resolutions and stage objects stay\<close>

lemma UseProgrammableVertexShader_keeps:
  assumes "UseProgrammableVertexShader P D regs su s = Inr (b, s')"
  shows "shaders_ref s h = Some p \<Longrightarrow> shaders_ref s' h = Some p"
    and "shaders s k = Some st \<Longrightarrow> shaders s' k = Some st"
    and "shaders_ref s' (ComputeHash64 P (PicaVSConfig P regs su)) = Some (current_vs s')"
  using assms unfolding UseProgrammableVertexShader_def Let_def
  by (auto split: option.splits sum.splits if_splits prod.splits)

lemma UseFragmentShader_keeps:
  assumes "UseFragmentShader P D regs s = Inr s'"
  shows "shaders_ref s h = Some p \<Longrightarrow> shaders_ref s' h = Some p"
    and "shaders s k = Some st \<Longrightarrow> shaders s' k = Some st"
    and "shaders_ref s' (ComputeHash64 P (PicaFSConfig_BuildFromRegs P regs)) = Some (current_fs s')"
  using assms unfolding UseFragmentShader_def Let_def
  by (auto split: option.splits sum.splits if_splits prod.splits)

lemma UseFixedGeometryShader_keeps:
  assumes "UseFixedGeometryShader P D regs s = Inr s'"
  shows "shaders_ref s' = shaders_ref s"
    and "shaders s k = Some st \<Longrightarrow> shaders s' k = Some st"
    and "shaders s' (ComputeHash64 P (PicaFixedGSConfig P regs)) \<noteq> None"
    and "current_gs s' = Node (ComputeHash64 P (PicaFixedGSConfig P regs))"
  using assms unfolding UseFixedGeometryShader_def Let_def
  by (auto split: option.splits sum.splits if_splits prod.splits)

lemma perform_keeps:
  assumes "perform P D r s = Inr s'"
  shows "shaders_ref s h = Some p \<Longrightarrow> shaders_ref s' h = Some p"
    and "shaders s k = Some st \<Longrightarrow> shaders s' k = Some st"
  using assms
  by (cases r;
      auto simp: UseTrivialVertexShader_def UseTrivialGeometryShader_def
        UseProgrammableVertexShader_keeps UseFragmentShader_keeps UseFixedGeometryShader_keeps
        split: sum.splits elim!: ApplyTo_frameE)+

lemma run_keeps:
  assumes "run P D rs s = Inr s'"
  shows "shaders_ref s h = Some p \<Longrightarrow> shaders_ref s' h = Some p"
    and "shaders s k = Some st \<Longrightarrow> shaders s' k = Some st"
  using assms
  by (induction rs arbitrary: s; auto split: sum.splits dest: perform_keeps)+

lemma first_resolution:
  assumes "vf_resolution P (separable s) r = Some (k, src)" and "src \<noteq> []"
      and "shaders_ref s k = None" and "perform P D r s = Inr s'"
      and "c = ComputeHash64 P (string_bytes src)"
  shows "shaders_ref s' k = Some (Node c)" and "selected r s' = Node c"
    and "\<exists>st. shaders s' c = Some st"
    and "shaders s c \<noteq> None \<Longrightarrow> shaders s' = shaders s"
    and "shaders s c \<noteq> None \<Longrightarrow>
           compiled (calls (gl_context s')) = compiled (calls (gl_context s))"
    and "shaders s c = None \<Longrightarrow>
           \<exists>t. compiled (calls (gl_context s')) = (src, t) # compiled (calls (gl_context s))"
proof -
  have "shaders_ref s' k = Some (Node c) \<and> selected r s' = Node c
      \<and> (\<exists>st. shaders s' c = Some st)
      \<and> (shaders s c \<noteq> None \<longrightarrow> shaders s' = shaders s
            \<and> compiled (calls (gl_context s')) = compiled (calls (gl_context s)))
      \<and> (shaders s c = None \<longrightarrow>
           (\<exists>t. compiled (calls (gl_context s')) = (src, t) # compiled (calls (gl_context s))))"
  proof (cases r)
    case (ReqUseProgrammableVertexShader regs su)
    with assms(4) obtain b where u: "UseProgrammableVertexShader P D regs su s = Inr (b, s')"
      by (auto split: sum.splits)
    from assms(1) ReqUseProgrammableVertexShader
    have k: "k = ComputeHash64 P (PicaVSConfig P regs su)"
      and src: "src = GenerateVertexShader P su (PicaVSConfig P regs su) (separable s)"
      by simp_all
    show ?thesis
    proof (cases "shaders s c")
      case None
      with u k src assms(2,3,5) ReqUseProgrammableVertexShader show ?thesis
        by (auto simp: UseProgrammableVertexShader_def Let_def record_call_def
            split: sum.splits dest: Stage_Create_effect(1))
    next
      case (Some st)
      with u k src assms(2,3,5) ReqUseProgrammableVertexShader show ?thesis
        by (auto simp: UseProgrammableVertexShader_def Let_def record_call_def)
    qed
  next
    case (ReqUseFragmentShader regs)
    with assms(4) have u: "UseFragmentShader P D regs s = Inr s'" by simp
    from assms(1) ReqUseFragmentShader
    have k: "k = ComputeHash64 P (PicaFSConfig_BuildFromRegs P regs)"
      and src: "src = GenerateFragmentShader P (PicaFSConfig_BuildFromRegs P regs) (separable s)"
      by simp_all
    show ?thesis
    proof (cases "shaders s c")
      case None
      with u k src assms(2,3,5) ReqUseFragmentShader show ?thesis
        by (auto simp: UseFragmentShader_def Let_def record_call_def
            split: sum.splits dest: Stage_Create_effect(1))
    next
      case (Some st)
      with u k src assms(2,3,5) ReqUseFragmentShader show ?thesis
        by (auto simp: UseFragmentShader_def Let_def record_call_def)
    qed
  qed (use assms(1) in simp_all)
  then show "shaders_ref s' k = Some (Node c)" and "selected r s' = Node c"
    and "\<exists>st. shaders s' c = Some st"
    and "shaders s c \<noteq> None \<Longrightarrow> shaders s' = shaders s"
    and "shaders s c \<noteq> None \<Longrightarrow>
           compiled (calls (gl_context s')) = compiled (calls (gl_context s))"
    and "shaders s c = None \<Longrightarrow>
           \<exists>t. compiled (calls (gl_context s')) = (src, t) # compiled (calls (gl_context s))"
    by blast+
qed

lemma resolution_returns:
  assumes "vf_resolution P (separable s) r = Some (k, src)"
      and "shaders s (ComputeHash64 P (string_bytes src)) \<noteq> None"
  shows "\<exists>s'. perform P D r s = Inr s'"
  using assms
  by (cases r)
     (auto simp: UseProgrammableVertexShader_def UseFragmentShader_def Let_def
        split: option.splits)

subsection \<open>ApplyTo and CreateProgram, case by case\<close>

lemma deref_error: "deref s p = Inl e \<Longrightarrow> e = NullDereference"
  by (auto simp: deref_def split: stage_ptr.splits option.splits)

lemma deref_Null: "deref s Null = Inl NullDereference"
  by (simp add: deref_def)

lemma ApplyTo_separable:
  assumes "separable s"
      and "deref s (current_vs s) = Inr v" and "deref s (current_gs s) = Inr g"
      and "deref s (current_fs s) = Inr f"
  shows "ApplyTo P D s =
     Inr (s\<lparr>gl_context := (gl_context s)\<lparr>calls :=
                 glUseProgramStages (pipeline s) [GL_FRAGMENT_SHADER_BIT] (GetHandle f)
               # glUseProgramStages (pipeline s) [GL_GEOMETRY_SHADER_BIT] (GetHandle g)
               # glUseProgramStages (pipeline s) [GL_VERTEX_SHADER_BIT] (GetHandle v)
               # (if is_amd s then
                    [glUseProgramStages (pipeline s)
                       [GL_VERTEX_SHADER_BIT, GL_GEOMETRY_SHADER_BIT, GL_FRAGMENT_SHADER_BIT] 0]
                  else [])
               @ calls (gl_context s)\<rparr>,
            state := \<lparr>draw_shader_program = 0, draw_program_pipeline = pipeline s\<rparr>\<rparr>)"
  using assms by (simp add: ApplyTo_def record_call_def Let_def)

lemma ApplyTo_total_cases:
  "ApplyTo P D s = Inl NullDereference \<or> ApplyTo P D s = Inl AssertFailed
     \<or> (\<exists>s'. ApplyTo P D s = Inr s')"
  by (cases "ApplyTo P D s"; simp; (rename_tac e, case_tac e; simp))

lemma ApplyTo_Inr_deref:
  assumes "ApplyTo P D s = Inr s'"
  obtains v g f where "deref s (current_vs s) = Inr v" and "deref s (current_gs s) = Inr g"
      and "deref s (current_fs s) = Inr f"
  using assms by (auto simp: ApplyTo_def split: sum.splits)

lemma ApplyTo_separable_error:
  assumes "separable s" and "ApplyTo P D s = Inl e"
  shows "e = NullDereference"
  using assms by (auto simp: ApplyTo_def Let_def split: sum.splits dest: deref_error)

lemma perform_separable:
  assumes "perform P D r s = Inr s'" and "separable s"
  shows "program_cache s' = program_cache s" and "binary_cache s' = binary_cache s"
proof -
  have "program_cache s' = program_cache s \<and> binary_cache s' = binary_cache s"
  proof (cases r)
    case ReqApplyTo
    with assms have a: "ApplyTo P D s = Inr s'" by simp
    from a obtain v g f where "deref s (current_vs s) = Inr v" "deref s (current_gs s) = Inr g"
      "deref s (current_fs s) = Inr f" by (rule ApplyTo_Inr_deref)
    from ApplyTo_separable [OF assms(2) this, of P D] a show ?thesis by auto
  qed (use assms in \<open>auto simp: UseTrivialVertexShader_def UseTrivialGeometryShader_def
        split: sum.splits
        elim!: UseProgrammableVertexShader_frameE UseFixedGeometryShader_frameE
          UseFragmentShader_frameE\<close>)
  then show "program_cache s' = program_cache s" and "binary_cache s' = binary_cache s"
    by simp_all
qed

lemma run_separable:
  assumes "run P D rs s = Inr s'" and "separable s"
  shows "program_cache s' = program_cache s \<and> binary_cache s' = binary_cache s"
  using assms
proof (induction rs arbitrary: s)
  case Nil
  then show ?case by simp
next
  case (Cons r rs)
  then obtain s1 where 1: "perform P D r s = Inr s1" and 2: "run P D rs s1 = Inr s'"
    by (auto split: sum.splits)
  from perform_frame(1) [OF 1] Cons.prems have "separable s1" by simp
  from Cons.IH [OF 2 this] perform_separable [OF 1 Cons.prems(2)] show ?case by simp
qed

lemma CreateProgram_no_blob:
  assumes "map_of (binary_cache s) h = None"
  shows "CreateProgram D 0 h vs gs fs s =
     (let p = OGLProgram_Create D (calls (gl_context s)) False [vs, gs, fs];
          cs = ProgramCreate False [vs, gs, fs] # calls (gl_context s);
          fb = OGLProgram_GetProgramBinary D cs p
      in (p, s\<lparr>gl_context := (gl_context s)\<lparr>calls := GetProgramBinary p # cs\<rparr>,
                binary_cache :=
                  (if snd fb \<noteq> [] then binary_cache s @ [(h, \<lparr>format = fst fb, binary = snd fb\<rparr>)]
                   else binary_cache s)\<rparr>))"
  using assms
  by (simp add: CreateProgram_def Let_def record_call_def emplace_def split: prod.splits)


lemma CreateProgram_blob_rejected:
  assumes "map_of (binary_cache s) h = Some e"
      and "OGLProgram_CreateBinary D (calls (gl_context s)) (format e) (binary e) = 0"
  shows "CreateProgram D program h vs gs fs s =
     (let cs0 = ProgramCreateBinary (format e) (binary e) # calls (gl_context s);
          p = OGLProgram_Create D cs0 False [vs, gs, fs];
          cs = ProgramCreate False [vs, gs, fs] # cs0;
          fb = OGLProgram_GetProgramBinary D cs p
      in (p, s\<lparr>gl_context := (gl_context s)\<lparr>calls := GetProgramBinary p # cs\<rparr>,
                binary_cache :=
                  (if snd fb \<noteq> [] then [(h, \<lparr>format = fst fb, binary = snd fb\<rparr>)] else [])\<rparr>))"
  using assms
  by (simp add: CreateProgram_def Let_def record_call_def emplace_def split: prod.splits)

lemma CreateProgram_links:
  assumes "CreateProgram D program h vs gs fs s = (p, s1)"
      and "ProgramCreate False hs \<in> set (calls (gl_context s1))"
  shows "ProgramCreate False hs \<in> set (calls (gl_context s)) \<or> hs = [vs, gs, fs]"
  using assms
  by (auto simp: CreateProgram_def Let_def record_call_def
      split: option.splits if_splits prod.splits)

lemma ApplyTo_hit:
  assumes "\<not> separable s"
      and "deref s (current_vs s) = Inr v" and "deref s (current_gs s) = Inr g"
      and "deref s (current_fs s) = Inr f"
      and "program_cache s (ComputeHash64 P (u64_bytes (GetHash v) @ u64_bytes (GetHash g)
             @ u64_bytes (GetHash f))) = Some p"
      and "p \<noteq> 0"
  shows "ApplyTo P D s = Inr (s\<lparr>state := \<lparr>draw_shader_program = p, draw_program_pipeline = 0\<rparr>\<rparr>)"
  using assms by (simp add: ApplyTo_def Let_def)

lemma ApplyTo_miss:
  assumes "\<not> separable s"
      and "deref s (current_vs s) = Inr v" and "deref s (current_gs s) = Inr g"
      and "deref s (current_fs s) = Inr f"
      and "h = ComputeHash64 P (u64_bytes (GetHash v) @ u64_bytes (GetHash g)
             @ u64_bytes (GetHash f))"
      and "program_cache s h = None \<or> program_cache s h = Some 0"
      and "CreateProgram D 0 h (GetHandle v) (GetHandle g) (GetHandle f) s = (p, s1)"
  shows "ApplyTo P D s =
     (case SetShaderUniformBlockBindings P D p (gl_context s1) of
        Inl e \<Rightarrow> Inl e
      | Inr g1 \<Rightarrow>
          Inr (s1\<lparr>gl_context := SetShaderSamplerBindings D p g1,
                 program_cache := (program_cache s1)(h \<mapsto> p),
                 state := \<lparr>draw_shader_program = p, draw_program_pipeline = 0\<rparr>\<rparr>))"
  using assms by (auto simp add: ApplyTo_def Let_def)

lemma ApplyTo_monolithic_cases:
  assumes "\<not> separable s"
      and "deref s (current_vs s) = Inr v" and "deref s (current_gs s) = Inr g"
      and "deref s (current_fs s) = Inr f"
      and "h = ComputeHash64 P (u64_bytes (GetHash v) @ u64_bytes (GetHash g)
             @ u64_bytes (GetHash f))"
      and "ApplyTo P D s = Inr s'"
  obtains (hit) p where "program_cache s h = Some p" and "p \<noteq> 0"
      and "s' = s\<lparr>state := \<lparr>draw_shader_program = p, draw_program_pipeline = 0\<rparr>\<rparr>"
  | (miss) p s1 bind where "program_cache s h = None \<or> program_cache s h = Some 0"
      and "CreateProgram D 0 h (GetHandle v) (GetHandle g) (GetHandle f) s = (p, s1)"
      and "list_all is_binding bind"
      and "calls (gl_context s') = bind @ calls (gl_context s1)"
      and "program_cache s' = (program_cache s)(h \<mapsto> p)"
      and "binary_cache s' = binary_cache s1"
      and "state s' = \<lparr>draw_shader_program = p, draw_program_pipeline = 0\<rparr>"
proof (cases "program_cache s h = None \<or> program_cache s h = Some 0")
  case False
  then obtain p where p: "program_cache s h = Some p" "p \<noteq> 0" by auto
  from ApplyTo_hit [OF assms(1-4) p(1) [unfolded assms(5)] p(2), of D] assms(6)
  have "s' = s\<lparr>state := \<lparr>draw_shader_program = p, draw_program_pipeline = 0\<rparr>\<rparr>" by simp
  with p show ?thesis by (rule hit)
next
  case True
  obtain p s1 where c: "CreateProgram D 0 h (GetHandle v) (GetHandle g) (GetHandle f) s = (p, s1)"
    by (cases "CreateProgram D 0 h (GetHandle v) (GetHandle g) (GetHandle f) s")
  note m = ApplyTo_miss [OF assms(1-5) True c]
  from m assms(6) obtain g1 where
    u: "SetShaderUniformBlockBindings P D p (gl_context s1) = Inr g1"
    and s': "s' = s1\<lparr>gl_context := SetShaderSamplerBindings D p g1,
                 program_cache := (program_cache s1)(h \<mapsto> p),
                 state := \<lparr>draw_shader_program = p, draw_program_pipeline = 0\<rparr>\<rparr>"
    by (auto split: sum.splits)
  from adds_trans [OF UniformBlockBindings_adds [OF u] SamplerBindings_adds [of D p g1]]
  obtain bind where b: "calls (SetShaderSamplerBindings D p g1) = bind @ calls (gl_context s1)"
    "list_all is_binding bind" by blast
  from c have pc: "program_cache s1 = program_cache s"
    by (auto elim!: CreateProgram_frameE)
  show ?thesis
    by (rule miss [OF True c b(2)]) (use s' b(1) pc in simp_all)
qed



subsection \<open>Bytes and files\<close>

lemma length_le_bytes [simp]: "length (le_bytes n v) = n"
  by (induction n arbitrary: v) simp_all

lemma le_val_le_bytes: "le_val (le_bytes n v) = v mod 256 ^ n"
proof (induction n arbitrary: v)
  case 0
  show ?case by simp
next
  case (Suc n)
  have "unat (of_nat (v mod 256) :: u8) = v mod 256"
    by (simp add: unat_of_nat)
  then have "le_val (le_bytes (Suc n) v) = v mod 256 + 256 * (v div 256 mod 256 ^ n)"
    using Suc by simp
  also have "\<dots> = v mod 256 ^ Suc n"
    by (simp add: mod_mult2_eq)
  finally show ?case .
qed

lemma bytes_u32_u32_bytes [simp]: "bytes_u32 (u32_bytes w) = w"
proof -
  have "unat w < 256 ^ 4" using unsigned_less [of w, where ?'a = nat] by simp
  then show ?thesis by (simp add: bytes_u32_def u32_bytes_def le_val_le_bytes)
qed

lemma bytes_u64_u64_bytes [simp]: "bytes_u64 (u64_bytes w) = w"
proof -
  have "unat w < 256 ^ 8" using unsigned_less [of w, where ?'a = nat] by simp
  then show ?thesis by (simp add: bytes_u64_def u64_bytes_def le_val_le_bytes)
qed

lemma length_u32_bytes [simp]: "length (u32_bytes w) = 4"
  by (simp add: u32_bytes_def)

lemma length_u64_bytes [simp]: "length (u64_bytes w) = 8"
  by (simp add: u64_bytes_def)

lemma le_val_u32_bytes: "le_val (u32_bytes w) = unat w"
proof -
  have "unat w < 256 ^ 4" using unsigned_less [of w, where ?'a = nat] by simp
  then show ?thesis by (simp add: u32_bytes_def le_val_le_bytes)
qed

lemma le_val_u64_bytes: "le_val (u64_bytes w) = unat w"
proof -
  have "unat w < 256 ^ 8" using unsigned_less [of w, where ?'a = nat] by simp
  then show ?thesis by (simp add: u64_bytes_def le_val_le_bytes)
qed

text \<open>
  The helpers evaluated for the example driver, so that the operations can be run on the
  example manager by rewriting, and each theorem above applied to a concrete run.
\<close>

lemma le_bytes_numeral:
  "le_bytes (numeral n) v = of_nat (v mod 256) # le_bytes (pred_numeral n) (v div 256)"
  by (metis le_bytes.simps(2) numeral_eq_Suc)

lemma replicate_num: "replicate (numeral n) x = x # replicate (pred_numeral n) x"
  by (simp add: numeral_eq_Suc)

lemma unat_length32:
  assumes "n < 2 ^ 32"
  shows "unat (of_nat n :: u32) = n"
  using assms by (simp add: unat_of_nat)

lemma sint_length32:
  assumes "n < 2 ^ 31"
  shows "sint (of_nat n :: u32) = int n"
proof -
  have a: "- (2 ^ 31) \<le> int n" by simp
  have "int n < int (2 ^ 31)" using assms by (simp only: of_nat_less_iff)
  then have b: "int n < 2 ^ 31" by simp
  have "signed_take_bit 31 (int n) = int n"
    by (rule signed_take_bit_int_eq_self [OF a b])
  moreover have "sint (of_nat n :: u32) = signed_take_bit 31 (int n)"
    by (simp only: signed_of_nat) simp
  ultimately show ?thesis by simp
qed

lemma length_resize [simp]: "length (resize n bs) = n"
  by (simp add: resize_def)

lemma ReadBytes_all:
  assumes "length buf = length bs"
  shows "ReadBytes buf \<lparr>unread = bs @ rest, written = w, room = r, m_good = gd\<rparr> =
           (bs, \<lparr>unread = rest, written = w, room = r, m_good = gd\<rparr>)"
  using assms by (simp add: ReadBytes_def Let_def)

lemma WriteBytes_all:
  assumes "length bs \<le> r"
  shows "WriteBytes bs \<lparr>unread = u, written = w, room = r, m_good = gd\<rparr> =
           \<lparr>unread = u, written = w @ bs, room = r - length bs, m_good = gd\<rparr>"
  using assms by (simp add: WriteBytes_def Let_def)

lemma save_entries_room:
  assumes "\<forall>p\<in>set t. length (binary (snd p)) < 2 ^ 32"
      and "length (concat (map entry_image t)) \<le> r"
  shows "save_entries t \<lparr>unread = u, written = w, room = r, m_good = True\<rparr> =
           (\<lparr>unread = u, written = w @ concat (map entry_image t),
             room = r - length (concat (map entry_image t)), m_good = True\<rparr>, False)"
  using assms
proof (induction t arbitrary: w r)
  case Nil
  show ?case by simp
next
  case (Cons p t)
  let ?b = "binary (snd p)"
  have len: "unat (of_nat (length ?b) :: u32) = length ?b"
    using Cons.prems(1) by (simp add: unat_length32)
  have r: "length (entry_image p) \<le> r"
    "length (concat (map entry_image t)) \<le> r - length (entry_image p)"
    using Cons.prems(2) by simp_all
  have img: "length (entry_image p) = 16 + length ?b"
    by (simp add: entry_image_def)
  have step: "WriteBytes (take (unat (of_nat (length ?b) :: u32)) ?b)
      (WriteBytes (u32_bytes (of_nat (length ?b)))
        (WriteBytes (u32_bytes (format (snd p)))
          (WriteBytes (u64_bytes (fst p)) \<lparr>unread = u, written = w, room = r, m_good = True\<rparr>)))
     = \<lparr>unread = u, written = (w @ entry_image p), room = r - length (entry_image p),
        m_good = True\<rparr>"
    using r(1) img by (simp add: len WriteBytes_all entry_image_def)
  have rest: "\<forall>p\<in>set t. length (binary (snd p)) < 2 ^ 32" using Cons.prems(1) by simp
  show ?case
    using Cons.IH [OF rest r(2), of "w @ entry_image p"] step
    by (simp add: Let_def IsGood_def)
qed

lemma emplace_fresh:
  assumes "k \<notin> fst ` set m"
  shows "emplace k v m = m @ [(k, v)]"
proof -
  from assms have "map_of m k = None" by (simp add: map_of_eq_None_iff)
  then show ?thesis by (simp add: emplace_def)
qed

lemma load_entries_image:
  assumes "\<forall>p\<in>set t. length (binary (snd p)) < 2 ^ 32"
      and "distinct (map fst (cache @ t))"
  shows "load_entries (int (length t)) locals
           \<lparr>unread = concat (map entry_image t) @ rest, written = w, room = r, m_good = True\<rparr> cache
         = (cache @ t, False)"
  using assms
proof (induction t arbitrary: locals cache)
  case Nil
  show ?case by (subst load_entries.simps) simp
next
  case (Cons p t)
  obtain hv fv lv bv where locals: "locals = (hv, fv, lv, bv)" by (cases locals) auto
  obtain k e where p: "p = (k, e)" by (cases p)
  let ?b = "binary e"
  have len: "unat (of_nat (length ?b) :: u32) = length ?b"
    using Cons.prems(1) p by (simp add: unat_length32)
  have fresh: "k \<notin> fst ` set cache" using Cons.prems(2) p by auto
  have e: "\<lparr>format = format e, binary = binary e\<rparr> = e" by simp
  have rest': "\<forall>p\<in>set t. length (binary (snd p)) < 2 ^ 32" using Cons.prems(1) by simp
  have d': "distinct (map fst ((cache @ [p]) @ t))" using Cons.prems(2) by simp
  have cnt: "int (length (p # t)) > 0" "int (length (p # t)) - 1 = int (length t)" by simp_all
  let ?f = "\<lparr>unread = concat (map entry_image (p # t)) @ rest, written = w, room = r,
             m_good = True\<rparr>"
  have unread: "concat (map entry_image (p # t)) @ rest =
      u64_bytes k @ u32_bytes (format e) @ u32_bytes (of_nat (length ?b)) @ ?b
        @ concat (map entry_image t) @ rest"
    by (simp add: p entry_image_def)
  have step: "load_entries (int (length (p # t))) locals ?f cache =
      load_entries (int (length t)) (k, format e, of_nat (length ?b), ?b)
        \<lparr>unread = concat (map entry_image t) @ rest, written = w, room = r, m_good = True\<rparr>
        (cache @ [p])"
    apply (subst load_entries.simps)
    apply (simp only: cnt if_True locals split_conv Let_def unread)
    apply (simp add: ReadBytes_all len IsGood_def emplace_fresh [OF fresh] e p del: of_nat_Suc)
    done
  show ?case
    unfolding step
    using Cons.IH [OF rest' d', of "(k, format e, of_nat (length ?b), ?b)"] by simp
qed

lemma SaveProgramCache_image:
  assumes "cache_dir_ok s"
      and "length (store_image (binary_cache s)) \<le> disk_room s"
      and "\<forall>p\<in>set (binary_cache s). length (binary (snd p)) < 2 ^ 32"
  shows "SaveProgramCache s = s\<lparr>cache_file := Some (store_image (binary_cache s))\<rparr>"
proof -
  let ?t = "binary_cache s"
  have room: "8 \<le> disk_room s" "length (concat (map entry_image ?t)) \<le> disk_room s - 8"
    using assms(2) by (simp_all add: store_image_def)
  have hdr: "WriteBytes (u32_bytes (of_nat (length ?t)))
               (WriteBytes (u32_bytes PROGRAM_CACHE_VERSION)
                  (IOFile_open_wb (cache_dir_ok s) (disk_room s)))
      = \<lparr>unread = [], written = u32_bytes 2 @ u32_bytes (of_nat (length ?t)),
         room = disk_room s - 8, m_good = True\<rparr>"
    using assms(1) room(1)
    by (simp add: IOFile_open_wb_def WriteBytes_all PROGRAM_CACHE_VERSION_def)
  show ?thesis
    using assms(1) hdr save_entries_room [OF assms(3) room(2)]
    by (simp add: SaveProgramCache_def Let_def IsGood_def IOFile_open_wb_def store_image_def)
qed

lemma LoadProgramCache_image:
  assumes "cache_file s0 = Some (store_image t)" and "binary_cache s0 = []"
      and "length t < 2 ^ 31"
      and "\<forall>p\<in>set t. length (binary (snd p)) < 2 ^ 32"
      and "distinct (map fst t)"
  shows "LoadProgramCache junk s0 = s0\<lparr>binary_cache := t\<rparr>"
proof -
  obtain hv fv lv where junk: "junk = (hv, fv, lv)" by (cases junk) auto
  have d: "distinct (map fst ([] @ t))" using assms(5) by simp
  have opened: "IOFile_open_rb (cache_file s0) =
      \<lparr>unread = u32_bytes 2 @ u32_bytes (of_nat (length t)) @ concat (map entry_image t) @ [],
        written = [], room = 0, m_good = True\<rparr>"
    using assms(1) by (simp add: IOFile_open_rb_def store_image_def)
  have cf: "s0\<lparr>binary_cache := t, cache_file := cache_file s0\<rparr> = s0\<lparr>binary_cache := t\<rparr>"
    by simp
  show ?thesis
    unfolding LoadProgramCache_def opened Let_def
    using load_entries_image [OF assms(4) d, of "(hv, fv, lv, [])" "[]" "[]" 0] cf
    by (simp add: IsGood_def ReadBytes_all PROGRAM_CACHE_VERSION_def junk
        sint_length32 [OF assms(3)] assms(2))
qed

lemma oversized_length: "(of_nat (length oversized_blob) :: u32) = 0"
  by (simp add: oversized_blob_def)

subsection \<open>The operations on the example manager\<close>

text \<open>
  The example manager is what the constructor builds from the example parameters. The
  helpers are evaluated for the example driver once, so that the operations can be run on
  the example manager by rewriting and each theorem below applied to a concrete run.
\<close>

lemma example_Impl_monolithic:
  "Impl example_pica example_driver False False (0, 0, 0) \<lparr>calls = [], bound_program = 0\<rparr>
     \<lparr>draw_shader_program = 0, draw_program_pipeline = 0\<rparr> None True 4096 = Inr (example_sys False)"
  by (simp add: Impl_def example_pica_def example_driver_def example_sys_def Let_def
      LoadProgramCache_def IOFile_open_rb_def IsGood_def OGLShaderStage_Create_def
      OGLShaderStage_new_def record_call_def)

lemma example_Impl_separable:
  "Impl example_pica example_driver True False (0, 0, 0) \<lparr>calls = [], bound_program = 0\<rparr>
     \<lparr>draw_shader_program = 0, draw_program_pipeline = 0\<rparr> None True 4096 = Inr (example_sys True)"
  by (simp add: Impl_def example_pica_def example_driver_def example_sys_def Let_def
      OGLShaderStage_Create_def SetShaderUniformBlockBindings_def SetShaderUniformBlockBinding_def
      GL_INVALID_INDEX_def
      OGLShaderStage_new_def record_call_def)

lemma example_hashes:
  "ComputeHash64 example_pica [2, 0] = 62"
  "ComputeHash64 example_pica (PicaVSConfig example_pica 2 3) = 65"
  "ComputeHash64 example_pica (PicaVSConfig example_pica 4 3) = 127"
  "ComputeHash64 example_pica (PicaVSConfig example_pica 2 0) = 62"
  "ComputeHash64 example_pica (PicaFixedGSConfig example_pica 2) = 2"
  "ComputeHash64 example_pica (PicaFSConfig_BuildFromRegs example_pica 2) = 1923"
  "ComputeHash64 example_pica (string_bytes ''v'') = 118"
  "ComputeHash64 example_pica (string_bytes ''f'') = 102"
  by (simp_all add: example_pica_def string_bytes_def)

lemma example_SamplerBinding:
  "SetShaderSamplerBinding example_driver p n u g =
     (if n = ''tex0'' then g\<lparr>calls := glUniform1i 0 u # calls g\<rparr> else g)"
  "SetShaderImageBinding example_driver p n u g =
     (if n = ''tex0'' then g\<lparr>calls := glUniform1i 0 u # calls g\<rparr> else g)"
  by (simp_all add: SetShaderSamplerBinding_def SetShaderImageBinding_def example_driver_def
      record_call_def)

lemma example_SamplerBindings:
  "SetShaderSamplerBindings example_driver p g =
     g\<lparr>calls := BindShaderProgram (bound_program g) # glUniform1i 0 (PicaTexture 0)
                  # BindShaderProgram p # calls g\<rparr>"
  by (simp add: SetShaderSamplerBindings_def example_SamplerBinding
      OpenGLState_BindShaderProgram_def record_call_def)

lemma example_UniformBlockBindings:
  "SetShaderUniformBlockBindings example_pica example_driver p g =
     Inr (g\<lparr>calls := glUniformBlockBinding p 0 Common # calls g\<rparr>)"
  by (simp add: SetShaderUniformBlockBindings_def SetShaderUniformBlockBinding_def
      example_driver_def example_pica_def GL_INVALID_INDEX_def record_call_def)

lemma example_Stage_Create:
  "OGLShaderStage_Create example_pica example_driver (OGLShaderStage_new False) code t h g =
     Inr (\<lparr>shader_or_program = OGLShader (of_nat (length (calls g)) + 1), hash = h\<rparr>,
          g\<lparr>calls := ShaderCreate code t # calls g\<rparr>)"
  "OGLShaderStage_Create example_pica example_driver (OGLShaderStage_new True) code t h g =
     Inr (\<lparr>shader_or_program = OGLProgram (of_nat (length (calls g)) + 2), hash = h\<rparr>,
          g\<lparr>calls := (if t = GL_FRAGMENT_SHADER then
                         [BindShaderProgram (bound_program g), glUniform1i 0 (PicaTexture 0),
                          BindShaderProgram (of_nat (length (calls g)) + 2)]
                       else [])
                    @ glUniformBlockBinding (of_nat (length (calls g)) + 2) 0 Common
                    # ProgramCreate True [of_nat (length (calls g)) + 1]
                    # ShaderCreate code t # calls g\<rparr>)"
  by (simp_all add: OGLShaderStage_Create_def OGLShaderStage_new_def example_UniformBlockBindings
      example_SamplerBindings record_call_def Let_def)
    (simp_all add: example_driver_def)

lemma example_pica_simps:
  "ComputeHash64 example_pica bs = foldl (\<lambda>h b. h * 31 + ucast b) 0 bs"
  "PicaVSConfig example_pica r s = [of_nat r, of_nat s]"
  "PicaFixedGSConfig example_pica r = [of_nat r]"
  "PicaFSConfig_BuildFromRegs example_pica r = [of_nat r, 0, 1]"
  "GenerateVertexShader example_pica s key sep = (if s = 0 then [] else ''v'')"
  "GenerateFixedGeometryShader example_pica key sep = ''g''"
  "GenerateFragmentShader example_pica key sep = ''f''"
  "GenerateTrivialVertexShader example_pica sep = ''t''"
  "use_shader_cache example_pica = True"
  by (simp_all add: example_pica_def)

lemma example_driver_simps:
  "OGLShader_Create example_driver cs code t = of_nat (length cs) + 1"
  "OGLProgram_Create example_driver cs sep hs = of_nat (length cs) + 1"
  "OGLProgram_CreateBinary example_driver cs f b = (if f = 1 then of_nat (length cs) + 1 else 0)"
  "OGLProgram_GetProgramBinary example_driver cs p = (1, [1, 2, 3])"
  "OGLPipeline_Create example_driver cs = 9"
  by (simp_all add: example_driver_def)

lemmas example_defs = example_pica_def example_driver_def example_sys_def

lemmas op_defs = UseProgrammableVertexShader_def UseFixedGeometryShader_def UseFragmentShader_def
  UseTrivialVertexShader_def UseTrivialGeometryShader_def OGLShaderStage_Create_def
  OGLShaderStage_new_def record_call_def string_bytes_def Let_def

lemmas example_run_simps =
  example_pica_simps example_driver_simps example_sys_def example_Stage_Create
  example_UniformBlockBindings example_SamplerBindings
  UseProgrammableVertexShader_def UseFixedGeometryShader_def UseFragmentShader_def
  UseTrivialVertexShader_def UseTrivialGeometryShader_def
  ApplyTo_def CreateProgram_def deref_def GetHandle_def GetHash_def emplace_def
  string_bytes_def u64_bytes_def le_bytes_numeral record_call_def Let_def

lemmas load_eval = LoadProgramCache_def IOFile_open_rb_def IsGood_def ReadBytes_def Let_def
  load_entries.simps PROGRAM_CACHE_VERSION_def bytes_u32_def bytes_u64_def resize_def emplace_def
  le_val_u32_bytes le_val_u64_bytes replicate_num

subsection \<open>Resolving a vertex configuration\<close>

text \<open>
  C1. \<^verbatim>\<open>UseProgrammableVertexShader\<close>: when the hash of the configuration key has a
  recorded resolution, that resolution (a node of \<^verbatim>\<open>shaders\<close> or null) becomes the
  active vertex stage, nothing else changes (no generator call, no compile) and the call
  returns whether it is non-null. On the first occurrence of the key hash the generator
  runs once. If it yields the empty text, null is recorded for the key hash and the call
  returns false. Otherwise the stage object is looked up under the hash of the text: an
  existing one is taken as it is, without compiling; a missing one is compiled from the
  text, stored under that hash and carries it as its content hash. The resolution is
  recorded, the object becomes the active vertex stage and the call returns true. The one
  way not to return is the uniform-block size assertion while a separable stage object is
  being created.
\<close>

theorem UseProgrammableVertexShader_resolution:
  assumes "key = PicaVSConfig P regs setup"
      and "key_hash = ComputeHash64 P key"
      and "vs_code = GenerateVertexShader P setup key (separable s)"
      and "code_hash = ComputeHash64 P (string_bytes vs_code)"
  shows
    "(\<forall>r. shaders_ref s key_hash = Some r \<longrightarrow>
        UseProgrammableVertexShader P D regs setup s = Inr (r \<noteq> Null, s\<lparr>current_vs := r\<rparr>))
     \<and> (shaders_ref s key_hash = None \<and> vs_code = [] \<longrightarrow>
        UseProgrammableVertexShader P D regs setup s =
          Inr (False, s\<lparr>gl_context := record_call (Generate GL_VERTEX_SHADER key) (gl_context s),
                         shaders_ref := (shaders_ref s)(key_hash \<mapsto> Null),
                         current_vs := Null\<rparr>))
     \<and> (shaders_ref s key_hash = None \<and> vs_code \<noteq> [] \<longrightarrow>
        (\<exists>s' st. UseProgrammableVertexShader P D regs setup s = Inr (True, s')
            \<and> current_vs s' = Node code_hash
            \<and> deref s' (current_vs s') = Inr st
            \<and> shaders_ref s' = (shaders_ref s)(key_hash \<mapsto> Node code_hash)
            \<and> generated (calls (gl_context s')) =
                (GL_VERTEX_SHADER, key) # generated (calls (gl_context s))
            \<and> (case shaders s code_hash of
                  Some old \<Rightarrow> st = old \<and> shaders s' = shaders s
                     \<and> compiled (calls (gl_context s')) = compiled (calls (gl_context s))
                | None \<Rightarrow> shaders s' = (shaders s)(code_hash \<mapsto> st) \<and> GetHash st = code_hash
                     \<and> compiled (calls (gl_context s')) =
                         (vs_code, GL_VERTEX_SHADER) # compiled (calls (gl_context s))))
        \<or> (separable s \<and> shaders s code_hash = None
            \<and> UseProgrammableVertexShader P D regs setup s = Inl AssertFailed))"
proof (intro conjI allI impI)
  fix r assume "shaders_ref s key_hash = Some r"
  then show "UseProgrammableVertexShader P D regs setup s = Inr (r \<noteq> Null, s\<lparr>current_vs := r\<rparr>)"
    using assms by (simp add: UseProgrammableVertexShader_def)
next
  assume "shaders_ref s key_hash = None \<and> vs_code = []"
  then show "UseProgrammableVertexShader P D regs setup s =
          Inr (False, s\<lparr>gl_context := record_call (Generate GL_VERTEX_SHADER key) (gl_context s),
                         shaders_ref := (shaders_ref s)(key_hash \<mapsto> Null),
                         current_vs := Null\<rparr>)"
    using assms by (simp add: UseProgrammableVertexShader_def Let_def)
next
  assume a: "shaders_ref s key_hash = None \<and> vs_code \<noteq> []"
  let ?g = "record_call (Generate GL_VERTEX_SHADER key) (gl_context s)"
  let ?U = "UseProgrammableVertexShader P D regs setup s"
  let ?goal = "(\<exists>s' st. ?U = Inr (True, s')
            \<and> current_vs s' = Node code_hash
            \<and> deref s' (current_vs s') = Inr st
            \<and> shaders_ref s' = (shaders_ref s)(key_hash \<mapsto> Node code_hash)
            \<and> generated (calls (gl_context s')) =
                (GL_VERTEX_SHADER, key) # generated (calls (gl_context s))
            \<and> (case shaders s code_hash of
                  Some old \<Rightarrow> st = old \<and> shaders s' = shaders s
                     \<and> compiled (calls (gl_context s')) = compiled (calls (gl_context s))
                | None \<Rightarrow> shaders s' = (shaders s)(code_hash \<mapsto> st) \<and> GetHash st = code_hash
                     \<and> compiled (calls (gl_context s')) =
                         (vs_code, GL_VERTEX_SHADER) # compiled (calls (gl_context s))))
        \<or> (separable s \<and> shaders s code_hash = None \<and> ?U = Inl AssertFailed)"
  show ?goal
  proof (cases "shaders s code_hash")
    case (Some old)
    with a assms show ?thesis
      by (simp add: UseProgrammableVertexShader_def Let_def deref_def record_call_def)
  next
    case None
    show ?thesis
    proof (cases "OGLShaderStage_Create P D (OGLShaderStage_new (separable s))
                    vs_code GL_VERTEX_SHADER code_hash ?g")
      case (Inl e)
      have sep: "separable s"
        using Inl by (cases "separable s") (simp_all add: Stage_Create_monolithic)
      have "e = AssertFailed" by (cases e) (use Inl in \<open>auto simp: OGLShaderStage_Create_def OGLShaderStage_new_def Let_def SetShaderUniformBlockBindings_def SetShaderUniformBlockBinding_def split: sum.splits if_splits\<close>)
      with Inl None a assms sep show ?thesis
        by (simp add: UseProgrammableVertexShader_def Let_def)
    next
      case (Inr p)
      obtain st g' where p: "p = (st, g')" by (cases p)
      note eff = Stage_Create_effect [OF Inr [unfolded p]]
      from Inr None a assms p eff show ?thesis
        by (simp add: UseProgrammableVertexShader_def Let_def deref_def record_call_def)
    qed
  qed
qed

theorem UseProgrammableVertexShader_resolution_witness:
  "shaders_ref (example_sys False) (ComputeHash64 example_pica (PicaVSConfig example_pica 2 3)) = None
   \<and> GenerateVertexShader example_pica 3 (PicaVSConfig example_pica 2 3) False = ''v''
   \<and> (\<exists>s'. UseProgrammableVertexShader example_pica example_driver 2 3 (example_sys False)
              = Inr (True, s')
          \<and> current_vs s' = Node 118
          \<and> shaders_ref s' 65 = Some (Node 118)
          \<and> compiled (calls (gl_context s')) =
               [(''v'', GL_VERTEX_SHADER), (''t'', GL_VERTEX_SHADER)])
   \<and> UseProgrammableVertexShader example_pica example_driver 2 0 (example_sys False)
        = Inr (False, (example_sys False)
             \<lparr>gl_context := record_call (Generate GL_VERTEX_SHADER [2, 0])
                              (gl_context (example_sys False)),
              shaders_ref := (shaders_ref (example_sys False))(62 \<mapsto> Null),
              current_vs := Null\<rparr>)
   \<and> UseProgrammableVertexShader example_pica example_driver 2 0
        ((example_sys False)\<lparr>shaders_ref := (shaders_ref (example_sys False))(62 \<mapsto> Null)\<rparr>)
        = Inr (False, (example_sys False)
             \<lparr>shaders_ref := (shaders_ref (example_sys False))(62 \<mapsto> Null),
              current_vs := Null\<rparr>)"
proof -
  note first = UseProgrammableVertexShader_resolution
    [OF refl refl refl refl, of "example_sys False" example_pica 2 3 example_driver,
     THEN conjunct2, THEN conjunct2]
  note empty = UseProgrammableVertexShader_resolution
    [OF refl refl refl refl, of "example_sys False" example_pica 2 0 example_driver,
     THEN conjunct2, THEN conjunct1]
  note again = UseProgrammableVertexShader_resolution
    [OF refl refl refl refl,
     of "(example_sys False)\<lparr>shaders_ref := (shaders_ref (example_sys False))(62 \<mapsto> Null)\<rparr>"
        example_pica 2 0 example_driver, THEN conjunct1]
  have a: "shaders_ref (example_sys False) k = None" for k
    by (simp add: example_sys_def)
  have b: "GenerateVertexShader example_pica 3 k sep = ''v''"
          "GenerateVertexShader example_pica 0 k sep = []" 
          "PicaVSConfig example_pica 2 0 = [2, 0]" for k sep
    by (simp_all add: example_pica_def)
  have c: "\<not> separable (example_sys False)" "shaders (example_sys False) 118 = None"
     "compiled (calls (gl_context (example_sys False))) = [(''t'', GL_VERTEX_SHADER)]"
    by (simp_all add: example_sys_def)
  have 1: "\<exists>s'. UseProgrammableVertexShader example_pica example_driver 2 3 (example_sys False)
              = Inr (True, s')
          \<and> current_vs s' = Node 118
          \<and> shaders_ref s' 65 = Some (Node 118)
          \<and> compiled (calls (gl_context s')) =
               [(''v'', GL_VERTEX_SHADER), (''t'', GL_VERTEX_SHADER)]"
    using first a b c by (auto simp add: example_hashes)
  have 2: "UseProgrammableVertexShader example_pica example_driver 2 0 (example_sys False)
        = Inr (False, (example_sys False)
             \<lparr>gl_context := record_call (Generate GL_VERTEX_SHADER [2, 0])
                              (gl_context (example_sys False)),
              shaders_ref := (shaders_ref (example_sys False))(62 \<mapsto> Null),
              current_vs := Null\<rparr>)"
    using empty a b by (simp add: example_hashes)
  have 3: "UseProgrammableVertexShader example_pica example_driver 2 0
        ((example_sys False)\<lparr>shaders_ref := (shaders_ref (example_sys False))(62 \<mapsto> Null)\<rparr>)
        = Inr (False, (example_sys False)
             \<lparr>shaders_ref := (shaders_ref (example_sys False))(62 \<mapsto> Null),
              current_vs := Null\<rparr>)"
    using again by (simp add: example_hashes)
  show ?thesis
    using 1 2 3 a b by simp
qed

subsection \<open>The linked-program cache\<close>



subsection \<open>Identical source texts\<close>

text \<open>
  C3, as the code has it. Take two vertex or fragment configurations whose generated texts
  are the same non-empty text, each resolved while no resolution is recorded for its key
  hash, the second after the first and after any further requests. Then the second
  resolution returns, both key hashes are recorded as the node under the content hash of
  the text, that node holds one and the same stage object after the first and after the
  second resolution, the second resolution adds no stage object and compiles nothing, and
  the first compiles the text once if no stage object was stored under that content hash
  and not at all otherwise. (Two configurations with the empty vertex text share no stage
  object and nothing is compiled for them: see the theorem after the witness.)
\<close>

theorem identical_sources_share_one_stage:
  assumes "vf_resolution P (separable s) r1 = Some (k1, src)"
      and "vf_resolution P (separable s) r2 = Some (k2, src)"
      and "src \<noteq> []"
      and "c = ComputeHash64 P (string_bytes src)"
      and "shaders_ref s k1 = None"
      and "perform P D r1 s = Inr s1"
      and "run P D rs s1 = Inr s2"
      and "shaders_ref s2 k2 = None"
  shows "\<exists>s3 st. perform P D r2 s2 = Inr s3
       \<and> shaders_ref s3 k1 = Some (Node c) \<and> shaders_ref s3 k2 = Some (Node c)
       \<and> selected r1 s1 = Node c \<and> selected r2 s3 = Node c
       \<and> shaders s1 c = Some st \<and> shaders s3 c = Some st
       \<and> shaders s3 = shaders s2
       \<and> compiled (calls (gl_context s3)) = compiled (calls (gl_context s2))
       \<and> (if shaders s c = None
          then \<exists>t. compiled (calls (gl_context s1)) = (src, t) # compiled (calls (gl_context s))
          else compiled (calls (gl_context s1)) = compiled (calls (gl_context s))
               \<and> shaders s1 = shaders s)"
proof -
  note a = first_resolution [OF assms(1) assms(3) assms(5) assms(6) assms(4)]
  from a(3) obtain st where st1: "shaders s1 c = Some st" by blast
  have st2: "shaders s2 c = Some st" by (rule run_keeps(2) [OF assms(7) st1])
  have sep: "separable s2 = separable s"
    using run_frame(1) [OF assms(7)] perform_frame(1) [OF assms(6)] by simp
  have r2: "vf_resolution P (separable s2) r2 = Some (k2, src)"
    using assms(2) sep by simp
  from resolution_returns [OF r2, of D] st2 assms(4)
  obtain s3 where p3: "perform P D r2 s2 = Inr s3" by auto
  note b = first_resolution [OF r2 assms(3) assms(8) p3 assms(4)]
  have same: "shaders s3 = shaders s2"
    and quiet: "compiled (calls (gl_context s3)) = compiled (calls (gl_context s2))"
    using b(4) b(5) st2 by simp_all
  have k1: "shaders_ref s3 k1 = Some (Node c)"
    by (rule perform_keeps(1) [OF p3 run_keeps(1) [OF assms(7) a(1)]])
  have first: "if shaders s c = None
          then \<exists>t. compiled (calls (gl_context s1)) = (src, t) # compiled (calls (gl_context s))
          else compiled (calls (gl_context s1)) = compiled (calls (gl_context s))
               \<and> shaders s1 = shaders s"
    using a(4) a(5) a(6) by simp
  from p3 k1 b(1) a(2) b(2) st1 st2 same quiet first show ?thesis
    by (intro exI [of _ s3] exI [of _ st]) simp
qed

theorem identical_sources_share_one_stage_witness:
  "\<exists>s1 s2 s3 st.
      vf_resolution example_pica False (ReqUseProgrammableVertexShader 2 3) = Some (65, ''v'')
    \<and> vf_resolution example_pica False (ReqUseProgrammableVertexShader 4 3) = Some (127, ''v'')
    \<and> shaders_ref (example_sys False) 65 = None
    \<and> perform example_pica example_driver (ReqUseProgrammableVertexShader 2 3) (example_sys False)
         = Inr s1
    \<and> run example_pica example_driver [ReqUseTrivialGeometryShader] s1 = Inr s2
    \<and> shaders_ref s2 127 = None
    \<and> perform example_pica example_driver (ReqUseProgrammableVertexShader 4 3) s2 = Inr s3
    \<and> shaders_ref s3 65 = Some (Node 118) \<and> shaders_ref s3 127 = Some (Node 118)
    \<and> shaders s1 118 = Some st \<and> shaders s3 118 = Some st
    \<and> compiled (calls (gl_context s3)) = compiled (calls (gl_context s2))"
proof -
  have v: "vf_resolution example_pica (separable (example_sys False))
             (ReqUseProgrammableVertexShader 2 3) = Some (65, ''v'')"
      "vf_resolution example_pica (separable (example_sys False))
             (ReqUseProgrammableVertexShader 4 3) = Some (127, ''v'')"
    by (simp_all add: example_pica_simps)
  have n: "shaders_ref (example_sys False) 65 = None" by (simp add: example_sys_def)
  have c: "(118 :: u64) = ComputeHash64 example_pica (string_bytes ''v'')"
    by (simp add: example_hashes)
  have "\<exists>s1 s2.
      perform example_pica example_driver (ReqUseProgrammableVertexShader 2 3) (example_sys False)
         = Inr s1
    \<and> run example_pica example_driver [ReqUseTrivialGeometryShader] s1 = Inr s2
    \<and> shaders_ref s2 127 = None"
    by (simp add: example_run_simps)
  then obtain s1 s2 where
    1: "perform example_pica example_driver (ReqUseProgrammableVertexShader 2 3) (example_sys False)
         = Inr s1"
    and 2: "run example_pica example_driver [ReqUseTrivialGeometryShader] s1 = Inr s2"
    and 3: "shaders_ref s2 127 = None"
    by blast
  have ne: "''v'' \<noteq> []" by simp
  from identical_sources_share_one_stage [OF v ne c n 1 2 3]
  obtain s3 st where
    "perform example_pica example_driver (ReqUseProgrammableVertexShader 4 3) s2 = Inr s3"
    "shaders_ref s3 65 = Some (Node 118)" "shaders_ref s3 127 = Some (Node 118)"
    "shaders s1 118 = Some st" "shaders s3 118 = Some st"
    "compiled (calls (gl_context s3)) = compiled (calls (gl_context s2))"
    by blast
  with v n 1 2 3 show ?thesis
    by (auto simp del: perform.simps run.simps simp add: example_sys_def)
qed

theorem empty_sources_share_no_stage:
  "PicaVSConfig example_pica 2 0 \<noteq> PicaVSConfig example_pica 4 0
   \<and> GenerateVertexShader example_pica 0 (PicaVSConfig example_pica 2 0) False
       = GenerateVertexShader example_pica 0 (PicaVSConfig example_pica 4 0) False
   \<and> run example_pica example_driver
        [ReqUseProgrammableVertexShader 2 0, ReqUseProgrammableVertexShader 4 0] (example_sys False)
       = Inr ((example_sys False)
            \<lparr>current_vs := Null,
             shaders_ref := [62 \<mapsto> Null, 124 \<mapsto> Null],
             gl_context := \<lparr>calls = [Generate GL_VERTEX_SHADER [4, 0],
                                     Generate GL_VERTEX_SHADER [2, 0],
                                     ShaderCreate ''t'' GL_VERTEX_SHADER],
                            bound_program = 0\<rparr>\<rparr>)
   \<and> dom (shaders ((example_sys False)
            \<lparr>current_vs := Null,
             shaders_ref := [62 \<mapsto> Null, 124 \<mapsto> Null],
             gl_context := \<lparr>calls = [Generate GL_VERTEX_SHADER [4, 0],
                                     Generate GL_VERTEX_SHADER [2, 0],
                                     ShaderCreate ''t'' GL_VERTEX_SHADER],
                            bound_program = 0\<rparr>\<rparr>)) = {}
   \<and> compiled [Generate GL_VERTEX_SHADER [4, 0], Generate GL_VERTEX_SHADER [2, 0],
                ShaderCreate ''t'' GL_VERTEX_SHADER] = [(''t'', GL_VERTEX_SHADER)]"
  by (simp add: example_run_simps)

subsection \<open>Resolving a configuration again\<close>

text \<open>
  C4. A resolving request (vertex, fixed geometry or fragment) that has been performed once
  is performed again, after any further requests, without a single call to a generator or
  to the driver: the context, the stage objects and the recorded resolutions are left as
  they are, and the active reference it selects is the one that the first time selected.
  Between the two, every recorded resolution and every stage object stays what it was:
  nothing is invalidated or derived again.
\<close>

theorem resolve_again:
  assumes "is_resolve r" and "perform P D r s = Inr s1" and "run P D rs s1 = Inr s2"
  shows "\<exists>s3. perform P D r s2 = Inr s3
            \<and> gl_context s3 = gl_context s2
            \<and> shaders s3 = shaders s2 \<and> shaders_ref s3 = shaders_ref s2
            \<and> selected r s3 = selected r s1
            \<and> (\<forall>h p. shaders_ref s1 h = Some p \<longrightarrow> shaders_ref s2 h = Some p)
            \<and> (\<forall>k st. shaders s1 k = Some st \<longrightarrow> shaders s2 k = Some st)"
proof -
  have keep: "(\<forall>h p. shaders_ref s1 h = Some p \<longrightarrow> shaders_ref s2 h = Some p)
            \<and> (\<forall>k st. shaders s1 k = Some st \<longrightarrow> shaders s2 k = Some st)"
    using run_keeps [OF assms(3)] by blast
  have "\<exists>s3. perform P D r s2 = Inr s3
            \<and> gl_context s3 = gl_context s2
            \<and> shaders s3 = shaders s2 \<and> shaders_ref s3 = shaders_ref s2
            \<and> selected r s3 = selected r s1"
  proof (cases r)
    case (ReqUseProgrammableVertexShader regs su)
    with assms(2) obtain b where "UseProgrammableVertexShader P D regs su s = Inr (b, s1)"
      by (auto split: sum.splits)
    from UseProgrammableVertexShader_keeps(3) [OF this] keep
    have "shaders_ref s2 (ComputeHash64 P (PicaVSConfig P regs su)) = Some (current_vs s1)"
      by blast
    then show ?thesis
      using ReqUseProgrammableVertexShader by (simp add: UseProgrammableVertexShader_def)
  next
    case (ReqUseFixedGeometryShader regs)
    with assms(2) have u: "UseFixedGeometryShader P D regs s = Inr s1" by simp
    from UseFixedGeometryShader_keeps(3) [OF u] keep
    obtain st where "shaders s2 (ComputeHash64 P (PicaFixedGSConfig P regs)) = Some st"
      by blast
    then show ?thesis
      using ReqUseFixedGeometryShader UseFixedGeometryShader_keeps(4) [OF u]
      by (simp add: UseFixedGeometryShader_def)
  next
    case (ReqUseFragmentShader regs)
    with assms(2) have "UseFragmentShader P D regs s = Inr s1" by simp
    from UseFragmentShader_keeps(3) [OF this] keep
    have "shaders_ref s2 (ComputeHash64 P (PicaFSConfig_BuildFromRegs P regs)) = Some (current_fs s1)"
      by blast
    then show ?thesis
      using ReqUseFragmentShader by (simp add: UseFragmentShader_def)
  qed (use assms(1) in simp_all)
  with keep show ?thesis by blast
qed

theorem resolve_again_witness:
  "\<exists>s1 s2 s3.
      perform example_pica example_driver (ReqUseFragmentShader 2) (example_sys False) = Inr s1
    \<and> run example_pica example_driver
          [ReqUseTrivialVertexShader, ReqUseFixedGeometryShader 2, ReqUseFragmentShader 5] s1 = Inr s2
    \<and> perform example_pica example_driver (ReqUseFragmentShader 2) s2 = Inr s3
    \<and> gl_context s3 = gl_context s2 \<and> shaders s3 = shaders s2 \<and> shaders_ref s3 = shaders_ref s2
    \<and> current_fs s3 = current_fs s1"
proof -
  have "\<exists>s1 s2.
      perform example_pica example_driver (ReqUseFragmentShader 2) (example_sys False) = Inr s1
    \<and> run example_pica example_driver
          [ReqUseTrivialVertexShader, ReqUseFixedGeometryShader 2, ReqUseFragmentShader 5] s1 = Inr s2"
    by (simp add: example_defs op_defs)
  then obtain s1 s2 where
    1: "perform example_pica example_driver (ReqUseFragmentShader 2) (example_sys False) = Inr s1"
    and 2: "run example_pica example_driver
          [ReqUseTrivialVertexShader, ReqUseFixedGeometryShader 2, ReqUseFragmentShader 5] s1 = Inr s2"
    by blast
  have 0: "is_resolve (ReqUseFragmentShader 2 :: (nat, nat) request)" by simp
  from resolve_again [OF 0 1 2] 1 2 show ?thesis
    by (simp del: perform.simps run.simps) blast
qed

subsection \<open>A rejected blob\<close>

text \<open>
  C5. When \<^verbatim>\<open>CreateProgram\<close> finds a blob for the program hash and the driver rejects it
  (the installed handle is 0), the whole blob table is dropped: afterwards it holds at most
  the entry made for this very hash from the freshly linked program, and no other key. The
  program is linked from the three live stage handles, and a lookup for any other key
  misses, so that \<^verbatim>\<open>CreateProgram\<close> for such a key links afresh too.
\<close>

theorem CreateProgram_rejected_blob_discards_table:
  assumes "map_of (binary_cache s) h = Some e"
      and "OGLProgram_CreateBinary D (calls (gl_context s)) (format e) (binary e) = 0"
      and "CreateProgram D program h vs gs fs s = (p, s')"
  shows "(\<forall>k. k \<noteq> h \<longrightarrow> map_of (binary_cache s') k = None)
       \<and> (binary_cache s' = [] \<or> (\<exists>fresh. binary_cache s' = [(h, fresh)] \<and> binary fresh \<noteq> []
              \<and> (format fresh, binary fresh) =
                  OGLProgram_GetProgramBinary D
                    (ProgramCreate False [vs, gs, fs] # ProgramCreateBinary (format e) (binary e)
                       # calls (gl_context s)) p))
       \<and> p = OGLProgram_Create D (ProgramCreateBinary (format e) (binary e) # calls (gl_context s))
               False [vs, gs, fs]
       \<and> calls (gl_context s') =
           GetProgramBinary p # ProgramCreate False [vs, gs, fs]
             # ProgramCreateBinary (format e) (binary e) # calls (gl_context s)
       \<and> (\<forall>k vs' gs' fs'. k \<noteq> h \<longrightarrow>
             fst (CreateProgram D 0 k vs' gs' fs' s') =
               OGLProgram_Create D (calls (gl_context s')) False [vs', gs', fs'])"
proof -
  note r = CreateProgram_blob_rejected [OF assms(1,2), of program vs gs fs]
  from r assms(3) have others: "\<forall>k. k \<noteq> h \<longrightarrow> map_of (binary_cache s') k = None"
    by (auto simp: Let_def)
  have relink: "fst (CreateProgram D 0 k vs' gs' fs' s') =
               OGLProgram_Create D (calls (gl_context s')) False [vs', gs', fs']"
    if "k \<noteq> h" for k vs' gs' fs'
    using others that by (simp add: CreateProgram_no_blob Let_def)
  from r assms(3) others relink show ?thesis
    by (auto simp: Let_def)
qed

theorem CreateProgram_rejected_blob_discards_table_witness:
  "map_of (binary_cache ((example_sys False)\<lparr>binary_cache := example_blobs\<rparr>)) 7
     = Some \<lparr>format = 5, binary = [9, 9]\<rparr>
   \<and> map_of (binary_cache ((example_sys False)\<lparr>binary_cache := example_blobs\<rparr>)) 8
     = Some \<lparr>format = 1, binary = [4]\<rparr>
   \<and> OGLProgram_CreateBinary example_driver
        (calls (gl_context ((example_sys False)\<lparr>binary_cache := example_blobs\<rparr>))) 5 [9, 9] = 0
   \<and> map_of (binary_cache (snd (CreateProgram example_driver 0 7 4 5 6
          ((example_sys False)\<lparr>binary_cache := example_blobs\<rparr>)))) 8 = None
   \<and> fst (CreateProgram example_driver 0 7 4 5 6
          ((example_sys False)\<lparr>binary_cache := example_blobs\<rparr>)) = 3"
proof -
  let ?s = "(example_sys False)\<lparr>binary_cache := example_blobs\<rparr>"
  have 1: "map_of (binary_cache ?s) 7 = Some \<lparr>format = 5, binary = [9, 9]\<rparr>"
    and o: "map_of (binary_cache ?s) 8 = Some \<lparr>format = 1, binary = [4]\<rparr>"
    by (simp_all add: example_blobs_def)
  have 2: "OGLProgram_CreateBinary example_driver (calls (gl_context ?s))
             (format \<lparr>format = 5, binary = [9, 9]\<rparr>) (binary \<lparr>format = 5, binary = [9, 9]\<rparr>) = 0"
    by (simp add: example_driver_simps)
  have 3: "CreateProgram example_driver 0 7 4 5 6 ?s =
             (fst (CreateProgram example_driver 0 7 4 5 6 ?s),
              snd (CreateProgram example_driver 0 7 4 5 6 ?s))"
    by simp
  from CreateProgram_rejected_blob_discards_table [OF 1 2 3] 1 o 2 show ?thesis
    by (simp add: example_driver_simps example_sys_def)
qed

subsection \<open>Loading a damaged store\<close>

text \<open>
  C6. The loader run on two damaged stores. The first has the right version, count 1 and
  an entry that announces 4 bytes and holds 2: the file is deleted, but the entry, its
  blob filled up with zero bytes, is put into the table before the read failure is looked
  at and it stays there. The second ends after the version tag: the read of the count
  fails, the count stays 0, the loop is not entered and the file is not deleted. Neither
  depends on what the uninitialised locals hold.
\<close>

theorem LoadProgramCache_keeps_entries_of_a_truncated_store:
  "LoadProgramCache (hv, fv, lv)
     ((example_sys False)\<lparr>cache_file :=
        Some [2, 0, 0, 0,  1, 0, 0, 0,  7, 0, 0, 0, 0, 0, 0, 0,  1, 0, 0, 0,  4, 0, 0, 0,  5, 6]\<rparr>)
   = (example_sys False)\<lparr>binary_cache := [(7, \<lparr>format = 1, binary = [5, 6, 0, 0]\<rparr>)],
                           cache_file := None\<rparr>
   \<and> LoadProgramCache (hv, fv, lv) ((example_sys False)\<lparr>cache_file := Some [2, 0, 0, 0]\<rparr>)
   = (example_sys False)\<lparr>cache_file := Some [2, 0, 0, 0]\<rparr>"
  by (simp add: load_eval example_sys_def)

subsection \<open>Saving and loading the store\<close>

text \<open>
  C7, as the code has it. Take a blob table with one pair per key, fewer than \<open>2^31\<close>
  entries and every blob shorter than \<open>2^32\<close> bytes (the count is written as a signed and
  the length as an unsigned 32-bit number). If the cache file can be opened for writing and
  the volume has room for it, \<^verbatim>\<open>SaveProgramCache\<close> writes exactly the store in the
  format of the specification, and \<^verbatim>\<open>LoadProgramCache\<close>, run on that file with an
  empty table and whatever its uninitialised locals hold, yields the table that was saved
  and keeps the file.
\<close>

theorem save_then_load:
  assumes "distinct (map fst (binary_cache s))"
      and "length (binary_cache s) < 2 ^ 31"
      and "\<forall>p\<in>set (binary_cache s). length (binary (snd p)) < 2 ^ 32"
      and "cache_dir_ok s"
      and "length (store_image (binary_cache s)) \<le> disk_room s"
      and "binary_cache s0 = []"
      and "cache_file s0 = cache_file (SaveProgramCache s)"
  shows "cache_file (SaveProgramCache s) = Some (store_image (binary_cache s))
       \<and> binary_cache (LoadProgramCache junk s0) = binary_cache s
       \<and> cache_file (LoadProgramCache junk s0) = cache_file s0"
proof -
  have w: "cache_file (SaveProgramCache s) = Some (store_image (binary_cache s))"
    using SaveProgramCache_image [OF assms(4,5,3)] by simp
  then have "cache_file s0 = Some (store_image (binary_cache s))" using assms(7) by simp
  from LoadProgramCache_image [OF this assms(6,2,3,1), of junk] w show ?thesis by simp
qed

theorem save_then_load_witness:
  "distinct (map fst example_blobs)
   \<and> length example_blobs < 2 ^ 31
   \<and> length (store_image example_blobs) \<le> 4096
   \<and> cache_file (SaveProgramCache ((example_sys False)\<lparr>binary_cache := example_blobs\<rparr>))
       = Some (store_image example_blobs)
   \<and> binary_cache (LoadProgramCache (1, 2, 3)
        ((example_sys False)\<lparr>cache_file :=
           cache_file (SaveProgramCache ((example_sys False)\<lparr>binary_cache := example_blobs\<rparr>))\<rparr>))
       = example_blobs"
proof -
  let ?s = "(example_sys False)\<lparr>binary_cache := example_blobs\<rparr>"
  let ?r = "(example_sys False)\<lparr>cache_file := cache_file (SaveProgramCache ?s)\<rparr>"
  have a: "distinct (map fst example_blobs)" and b: "length example_blobs < 2 ^ 31"
    and c: "length (store_image example_blobs) \<le> 4096"
    by (simp_all add: example_blobs_def store_image_def entry_image_def)
  have 1: "distinct (map fst (binary_cache ?s))" using a by simp
  have 2: "length (binary_cache ?s) < 2 ^ 31" using b by simp
  have 3: "\<forall>p\<in>set (binary_cache ?s). length (binary (snd p)) < 2 ^ 32"
    by (simp add: example_blobs_def)
  have 4: "cache_dir_ok ?s" by (simp add: example_sys_def)
  have 5: "length (store_image (binary_cache ?s)) \<le> disk_room ?s"
    using c by (simp add: example_sys_def)
  have 6: "binary_cache ?r = []" by (simp add: example_sys_def)
  have 7: "cache_file ?r = cache_file (SaveProgramCache ?s)" by simp
  have bc: "binary_cache ?s = example_blobs" by simp
  note t = save_then_load [OF 1 2 3 4 5 6 7, of "(1, 2, 3)", unfolded bc]
  from t have p: "cache_file (SaveProgramCache ?s) = Some (store_image example_blobs)"
    by blast
  from t have q: "binary_cache (LoadProgramCache (1, 2, 3) ?r) = example_blobs"
    by blast
  from a b c p q show ?thesis by blast
qed

text \<open>
  A table with one blob of \<open>2^32\<close> bytes is a table the statement above leaves out: its
  length is written as 0 and no byte of it is written, so the loader gets an empty blob.
\<close>

theorem oversized_blob_is_not_restored:
  "cache_file (SaveProgramCache
      ((example_sys False)\<lparr>binary_cache := [(7, \<lparr>format = 1, binary = oversized_blob\<rparr>)]\<rparr>))
     = Some [2, 0, 0, 0,  1, 0, 0, 0,  7, 0, 0, 0, 0, 0, 0, 0,  1, 0, 0, 0,  0, 0, 0, 0]
   \<and> binary_cache (LoadProgramCache (0, 0, 0)
        ((example_sys False)\<lparr>cache_file :=
           Some [2, 0, 0, 0,  1, 0, 0, 0,  7, 0, 0, 0, 0, 0, 0, 0,  1, 0, 0, 0,  0, 0, 0, 0]\<rparr>))
     = [(7, \<lparr>format = 1, binary = []\<rparr>)]
   \<and> [(7 :: u64, \<lparr>format = 1, binary = []\<rparr>)]
       \<noteq> [(7, \<lparr>format = 1, binary = oversized_blob\<rparr>)]"
proof -
  have ne: "oversized_blob \<noteq> []" by (simp add: oversized_blob_def)
  have save: "cache_file (SaveProgramCache
      ((example_sys False)\<lparr>binary_cache := [(7, \<lparr>format = 1, binary = oversized_blob\<rparr>)]\<rparr>))
     = Some [2, 0, 0, 0,  1, 0, 0, 0,  7, 0, 0, 0, 0, 0, 0, 0,  1, 0, 0, 0,  0, 0, 0, 0]"
    by (simp add: SaveProgramCache_def IOFile_open_wb_def IsGood_def WriteBytes_all Let_def
        PROGRAM_CACHE_VERSION_def oversized_length example_sys_def
        u32_bytes_def u64_bytes_def le_bytes_numeral)
  have load: "binary_cache (LoadProgramCache (0, 0, 0)
        ((example_sys False)\<lparr>cache_file :=
           Some [2, 0, 0, 0,  1, 0, 0, 0,  7, 0, 0, 0, 0, 0, 0, 0,  1, 0, 0, 0,  0, 0, 0, 0]\<rparr>))
     = [(7, \<lparr>format = 1, binary = []\<rparr>)]"
    by (simp add: load_eval example_sys_def)
  from save load ne show ?thesis by simp
qed

subsection \<open>Separable mode\<close>

text \<open>
  C8. A manager constructed in separable mode never has an entry in the linked-program
  cache or in the blob table, whatever requests it has served (stage selections and
  ApplyTo, in any number and order); it never reads or deletes the cache file and its
  destructor does not save. ApplyTo then either stops at a null or unset stage reference
  or publishes the handle of the pipeline object and program handle 0 to the render state.
\<close>

theorem separable_mode_has_no_programs:
  assumes "Impl P D True amd junk g st fl ok free = Inr s0"
      and "run P D rs s0 = Inr s"
  shows "program_cache s = Map.empty \<and> binary_cache s = [] \<and> cache_file s = fl
       \<and> Impl_destroy P s = s
       \<and> (ApplyTo P D s = Inl NullDereference
          \<or> (\<exists>s'. ApplyTo P D s = Inr s'
                \<and> state s' = \<lparr>draw_shader_program = 0,
                               draw_program_pipeline = OGLPipeline_Create D (calls g)\<rparr>
                \<and> program_cache s' = Map.empty \<and> binary_cache s' = []))"
proof -
  note f = Impl_separable_fields [OF assms(1)]
  have sep0: "separable s0" using f(1) by simp
  have sep: "separable s" using run_frame(1) [OF assms(2)] sep0 by simp
  have pl: "pipeline s = OGLPipeline_Create D (calls g)"
    using run_frame(3) [OF assms(2)] f(5) by simp
  have caches: "program_cache s = Map.empty" "binary_cache s = []"
    using run_separable [OF assms(2) sep0] f(2) f(3) by simp_all
  have fl: "cache_file s = fl"
    using run_frame(6) [OF assms(2)] f(4) by simp
  have destroy: "Impl_destroy P s = s"
    using sep by (simp add: Impl_destroy_def)
  have app: "ApplyTo P D s = Inl NullDereference
          \<or> (\<exists>s'. ApplyTo P D s = Inr s'
                \<and> state s' = \<lparr>draw_shader_program = 0,
                               draw_program_pipeline = OGLPipeline_Create D (calls g)\<rparr>
                \<and> program_cache s' = Map.empty \<and> binary_cache s' = [])"
  proof (cases "ApplyTo P D s")
    case (Inl e)
    with ApplyTo_separable_error [OF sep Inl] show ?thesis by simp
  next
    case (Inr s')
    from Inr obtain v g' f' where d: "deref s (current_vs s) = Inr v"
      "deref s (current_gs s) = Inr g'" "deref s (current_fs s) = Inr f'"
      by (rule ApplyTo_Inr_deref)
    from ApplyTo_separable [OF sep d, of P D] caches pl show ?thesis by simp
  qed
  from caches fl destroy app show ?thesis by blast
qed

theorem separable_mode_has_no_programs_witness:
  "\<exists>s0 s s'.
      Impl example_pica example_driver True False (0, 0, 0) \<lparr>calls = [], bound_program = 0\<rparr>
        \<lparr>draw_shader_program = 0, draw_program_pipeline = 0\<rparr> None True 4096 = Inr s0
    \<and> run example_pica example_driver
          [ReqUseTrivialVertexShader, ReqUseTrivialGeometryShader, ReqUseFragmentShader 2,
           ReqApplyTo] s0 = Inr s
    \<and> ApplyTo example_pica example_driver s = Inr s'
    \<and> program_cache s = Map.empty \<and> binary_cache s = []
    \<and> program_cache s' = Map.empty \<and> binary_cache s' = []
    \<and> state s' = \<lparr>draw_shader_program = 0, draw_program_pipeline = 9\<rparr>"
proof -
  have "\<exists>s s'. run example_pica example_driver
          [ReqUseTrivialVertexShader, ReqUseTrivialGeometryShader, ReqUseFragmentShader 2,
           ReqApplyTo] (example_sys True) = Inr s
    \<and> ApplyTo example_pica example_driver s = Inr s'"
    by (simp add: example_run_simps)
  then obtain s s' where
    1: "run example_pica example_driver
          [ReqUseTrivialVertexShader, ReqUseTrivialGeometryShader, ReqUseFragmentShader 2,
           ReqApplyTo] (example_sys True) = Inr s"
    and 2: "ApplyTo example_pica example_driver s = Inr s'"
    by blast
  from separable_mode_has_no_programs [OF example_Impl_separable 1] 2
  have "program_cache s = Map.empty \<and> binary_cache s = []
    \<and> program_cache s' = Map.empty \<and> binary_cache s' = []
    \<and> state s' = \<lparr>draw_shader_program = 0, draw_program_pipeline = 9\<rparr>"
    by (simp add: example_driver_simps)
  with example_Impl_separable 1 2 show ?thesis by blast
qed

subsection \<open>ApplyTo with a null stage reference\<close>

text \<open>
  C9, as the code has it. \<^verbatim>\<open>ApplyTo\<close> asserts nothing about the three active stage
  references: it dereferences them at once. With a null reference among them the call is a
  null-pointer dereference, which the model renders as the fault \<open>NullDereference\<close>; it
  happens before any binding, cache or render-state effect, and there is no path that
  recovers from it.
\<close>

theorem ApplyTo_null_stage_unchecked:
  assumes "current_vs s = Null \<or> current_gs s = Null \<or> current_fs s = Null"
  shows "ApplyTo P D s = Inl NullDereference"
proof -
  have d: "deref s p = Inl NullDereference \<or> (\<exists>st. deref s p = Inr st)" for p
    by (cases "deref s p") (auto dest: deref_error)
  from assms d [of "current_vs s"] d [of "current_gs s"] d [of "current_fs s"] show ?thesis
    by (auto simp: ApplyTo_def deref_Null)
qed

theorem ApplyTo_null_stage_unchecked_witness:
  "current_gs ((example_sys False)\<lparr>current_vs := Trivial_vertex, current_gs := Null,
       current_fs := Trivial_vertex\<rparr>) = Null
   \<and> ApplyTo example_pica example_driver
        ((example_sys False)\<lparr>current_vs := Trivial_vertex, current_gs := Null,
           current_fs := Trivial_vertex\<rparr>) = Inl NullDereference"
  using ApplyTo_null_stage_unchecked
    [of "(example_sys False)\<lparr>current_vs := Trivial_vertex, current_gs := Null,
           current_fs := Trivial_vertex\<rparr>" example_pica example_driver]
  by simp

theorem ApplyTo_null_stage_is_no_assertion:
  "current_vs ((example_sys False)\<lparr>current_vs := Null, current_gs := Trivial_geometry,
       current_fs := Trivial_vertex\<rparr>) = Null
   \<and> ApplyTo example_pica example_driver
        ((example_sys False)\<lparr>current_vs := Null, current_gs := Trivial_geometry,
           current_fs := Trivial_vertex\<rparr>) \<noteq> Inl AssertFailed"
  by (simp add: ApplyTo_def deref_def)

subsection \<open>The trivial geometry stage\<close>

text \<open>
  C10. The constructor builds the trivial geometry stage and never creates it: its content
  hash and its handle are 0, and no request changes them. So an ApplyTo that finds the
  trivial geometry stage selected binds handle 0 to the geometry stage of the pipeline in
  separable mode; in monolithic mode it looks the program up under the hash of the vertex
  hash, 0 and the fragment hash, and a program it links is linked from the vertex handle,
  0 and the fragment handle.
\<close>

theorem trivial_geometry_stage_is_never_compiled:
  assumes "Impl P D sep amd junk g0 st fl ok free = Inr s0"
      and "run P D rs s0 = Inr s"
      and "current_gs s = Trivial_geometry"
  shows "GetHash (trivial_geometry_shader s0) = 0 \<and> GetHandle (trivial_geometry_shader s0) = 0
       \<and> deref s (current_gs s) = Inr (trivial_geometry_shader s0)
       \<and> (\<forall>s' v f. ApplyTo P D s = Inr s' \<and> deref s (current_vs s) = Inr v
                    \<and> deref s (current_fs s) = Inr f \<longrightarrow>
            (sep \<longrightarrow> calls (gl_context s') =
                 glUseProgramStages (pipeline s) [GL_FRAGMENT_SHADER_BIT] (GetHandle f)
               # glUseProgramStages (pipeline s) [GL_GEOMETRY_SHADER_BIT] 0
               # glUseProgramStages (pipeline s) [GL_VERTEX_SHADER_BIT] (GetHandle v)
               # (if amd then
                    [glUseProgramStages (pipeline s)
                       [GL_VERTEX_SHADER_BIT, GL_GEOMETRY_SHADER_BIT, GL_FRAGMENT_SHADER_BIT] 0]
                  else [])
               @ calls (gl_context s))
          \<and> (\<not> sep \<longrightarrow>
                program_cache s' (ComputeHash64 P (u64_bytes (GetHash v) @ u64_bytes 0
                                    @ u64_bytes (GetHash f)))
                  = Some (draw_shader_program (state s'))
              \<and> (\<forall>hs. ProgramCreate False hs \<in> set (calls (gl_context s')) \<longrightarrow>
                    ProgramCreate False hs \<in> set (calls (gl_context s))
                    \<or> hs = [GetHandle v, 0, GetHandle f])))"
proof -
  note i = Impl_fields [OF assms(1)]
  note r = run_frame [OF assms(2)]
  have tg0: "trivial_geometry_shader s0 = OGLShaderStage_new sep" by (rule i(3))
  have tg: "trivial_geometry_shader s = trivial_geometry_shader s0" by (rule r(5))
  have sep: "separable s = sep" using r(1) i(1) by simp
  have amd: "is_amd s = amd" using r(2) i(2) by simp
  have zero: "GetHash (trivial_geometry_shader s0) = 0" "GetHandle (trivial_geometry_shader s0) = 0"
    using tg0 by (simp_all add: OGLShaderStage_new_zero)
  have dg: "deref s (current_gs s) = Inr (trivial_geometry_shader s0)"
    using assms(3) tg by (simp add: deref_def)
  have app: "(sep \<longrightarrow> calls (gl_context s') =
                 glUseProgramStages (pipeline s) [GL_FRAGMENT_SHADER_BIT] (GetHandle f)
               # glUseProgramStages (pipeline s) [GL_GEOMETRY_SHADER_BIT] 0
               # glUseProgramStages (pipeline s) [GL_VERTEX_SHADER_BIT] (GetHandle v)
               # (if amd then
                    [glUseProgramStages (pipeline s)
                       [GL_VERTEX_SHADER_BIT, GL_GEOMETRY_SHADER_BIT, GL_FRAGMENT_SHADER_BIT] 0]
                  else [])
               @ calls (gl_context s))
          \<and> (\<not> sep \<longrightarrow>
                program_cache s' (ComputeHash64 P (u64_bytes (GetHash v) @ u64_bytes 0
                                    @ u64_bytes (GetHash f)))
                  = Some (draw_shader_program (state s'))
              \<and> (\<forall>hs. ProgramCreate False hs \<in> set (calls (gl_context s')) \<longrightarrow>
                    ProgramCreate False hs \<in> set (calls (gl_context s))
                    \<or> hs = [GetHandle v, 0, GetHandle f]))"
    if a: "ApplyTo P D s = Inr s'" and dv: "deref s (current_vs s) = Inr v"
      and df: "deref s (current_fs s) = Inr f" for s' v f
  proof (cases sep)
    case True
    with sep have "separable s" by simp
    from ApplyTo_separable [OF this dv dg df, of P D] a True amd zero show ?thesis by auto
  next
    case False
    with sep have ns: "\<not> separable s" by simp
    let ?h = "ComputeHash64 P (u64_bytes (GetHash v) @ u64_bytes (GetHash (trivial_geometry_shader s0))
                                    @ u64_bytes (GetHash f))"
    from ns dv dg df refl a
    have "program_cache s' ?h = Some (draw_shader_program (state s'))
        \<and> (\<forall>hs. ProgramCreate False hs \<in> set (calls (gl_context s')) \<longrightarrow>
                    ProgramCreate False hs \<in> set (calls (gl_context s))
                    \<or> hs = [GetHandle v, GetHandle (trivial_geometry_shader s0), GetHandle f])"
    proof (cases rule: ApplyTo_monolithic_cases [where h = ?h])
      case (hit p)
      then show ?thesis by simp
    next
      case (miss p s1 bind)
      from miss(3) have "ProgramCreate False hs \<notin> set bind" for hs
        by (auto simp: list_all_iff)
      with miss(4) CreateProgram_links [OF miss(2)] miss(5,7) show ?thesis by auto
    qed
    with False zero show ?thesis by simp
  qed
  from zero dg app show ?thesis by blast
qed

theorem trivial_geometry_stage_is_never_compiled_witness:
  "\<exists>s s'.
      Impl example_pica example_driver False False (0, 0, 0) \<lparr>calls = [], bound_program = 0\<rparr>
        \<lparr>draw_shader_program = 0, draw_program_pipeline = 0\<rparr> None True 4096
        = Inr (example_sys False)
    \<and> run example_pica example_driver
          [ReqUseTrivialVertexShader, ReqUseTrivialGeometryShader, ReqUseFragmentShader 2]
          (example_sys False) = Inr s
    \<and> current_gs s = Trivial_geometry
    \<and> ApplyTo example_pica example_driver s = Inr s'
    \<and> GetHash (trivial_geometry_shader (example_sys False)) = 0
    \<and> GetHandle (trivial_geometry_shader (example_sys False)) = 0
    \<and> program_cache s' (ComputeHash64 example_pica (u64_bytes 0 @ u64_bytes 0 @ u64_bytes 102))
         = Some (draw_shader_program (state s'))"
proof -
  have "\<exists>s s' v f. run example_pica example_driver
          [ReqUseTrivialVertexShader, ReqUseTrivialGeometryShader, ReqUseFragmentShader 2]
          (example_sys False) = Inr s
    \<and> current_gs s = Trivial_geometry
    \<and> ApplyTo example_pica example_driver s = Inr s'
    \<and> deref s (current_vs s) = Inr v \<and> deref s (current_fs s) = Inr f
    \<and> GetHash v = 0 \<and> GetHash f = 102"
    by (simp add: example_run_simps)
  then obtain s s' v f where
    1: "run example_pica example_driver
          [ReqUseTrivialVertexShader, ReqUseTrivialGeometryShader, ReqUseFragmentShader 2]
          (example_sys False) = Inr s"
    and 2: "current_gs s = Trivial_geometry"
    and 3: "ApplyTo example_pica example_driver s = Inr s'"
    and 4: "deref s (current_vs s) = Inr v" "deref s (current_fs s) = Inr f"
    and 5: "GetHash v = 0" "GetHash f = 102"
    by blast
  note t = trivial_geometry_stage_is_never_compiled [OF example_Impl_monolithic 1 2]
  from t have z: "GetHash (trivial_geometry_shader (example_sys False)) = 0"
      "GetHandle (trivial_geometry_shader (example_sys False)) = 0"
    by blast+
  from t 3 4 have "program_cache s' (ComputeHash64 example_pica
        (u64_bytes (GetHash v) @ u64_bytes 0 @ u64_bytes (GetHash f)))
         = Some (draw_shader_program (state s'))"
    by blast
  with z 5 have
    "GetHash (trivial_geometry_shader (example_sys False)) = 0
    \<and> GetHandle (trivial_geometry_shader (example_sys False)) = 0
    \<and> program_cache s' (ComputeHash64 example_pica (u64_bytes 0 @ u64_bytes 0 @ u64_bytes 102))
         = Some (draw_shader_program (state s'))"
    by simp
  with example_Impl_monolithic 1 2 3 show ?thesis by blast
qed

end
